theory Spec2Isabelle
  imports Complex_Main "HOL-Library.Word"
begin

section \<open>Strings and numbers of the component\<close>

text \<open>
  The model covers \<^verbatim>\<open>src/components/VideoMaker.tsx\<close>: the helper functions
  \<^verbatim>\<open>clamp\<close>, \<^verbatim>\<open>extOf\<close> and \<^verbatim>\<open>escapeDrawtext\<close>, the filter expression built for
  each item, the item list with its identity-keyed patch, and \<^verbatim>\<open>createVideo\<close> with
  every call it makes to the encoding engine.

  A string is a \<^typ>\<open>string\<close>: a list of code units, here restricted to eight bits.
  Three characters cannot be written inside a literal and get names.
\<close>

definition backslash :: char where
  "backslash = CHR 0x5C"

definition quote :: char where
  "quote = CHR 0x27"

definition colon :: char where
  "colon = CHR 0x3A"

text \<open>
  \<^verbatim>\<open>`${n}`\<close> and \<^verbatim>\<open>String(n)\<close> for a non-negative integer \<open>n\<close>: its decimal digits.
  The resolution and the frame rate are chosen from lists of positive integers.
\<close>

definition digit_char :: "nat \<Rightarrow> char" where
  "digit_char d = ''0123456789'' ! d"

function String_nat :: "nat \<Rightarrow> string" where
  "String_nat n =
     (if n < 10 then [digit_char n] else String_nat (n div 10) @ [digit_char (n mod 10)])"
  by pat_completeness auto
termination
  by (relation "measure id") auto

declare String_nat.simps [simp del]

definition String_int :: "int \<Rightarrow> string" where
  "String_int i = (if i < 0 then ''-'' @ String_nat (nat (- i)) else String_nat (nat i))"

text \<open>
  A JavaScript \<^verbatim>\<open>number\<close>. The finite values are kept as rationals: the code only
  compares and selects durations, so no rounding is involved; \<^verbatim>\<open>NaN\<close> and the two
  infinities are values of the type as well. \<open>num_le\<close> is \<^verbatim>\<open>a <= b\<close>, which is false
  as soon as one side is \<^verbatim>\<open>NaN\<close>.
\<close>

datatype number = NaN | NegInfinity | Finite rat | PosInfinity

fun num_le :: "number \<Rightarrow> number \<Rightarrow> bool" where
  "num_le NaN _ = False"
| "num_le _ NaN = False"
| "num_le NegInfinity _ = True"
| "num_le _ PosInfinity = True"
| "num_le (Finite a) (Finite b) = (a \<le> b)"
| "num_le (Finite _) NegInfinity = False"
| "num_le PosInfinity _ = False"

text \<open>\<^verbatim>\<open>Math.max\<close> and \<^verbatim>\<open>Math.min\<close> of two arguments: \<^verbatim>\<open>NaN\<close> if either is.\<close>

definition Math_max :: "number \<Rightarrow> number \<Rightarrow> number" where
  "Math_max a b = (if a = NaN \<or> b = NaN then NaN else if num_le a b then b else a)"

definition Math_min :: "number \<Rightarrow> number \<Rightarrow> number" where
  "Math_min a b = (if a = NaN \<or> b = NaN then NaN else if num_le a b then a else b)"

text \<open>
  \<^verbatim>\<open>Math.round\<close>: the nearest integer, a half going up. It is applied to the quotient
  of a pixel dimension by 18 or by 8 only; a quotient of that kind is either exactly a half
  away from an integer or at least 1/18 away from every half, so the floating-point
  quotient rounds as the exact one does.
\<close>

definition Math_round :: "rat \<Rightarrow> int" where
  "Math_round x = \<lfloor>x + 1 / 2\<rfloor>"

section \<open>The helper functions\<close>

text \<open>
  \<^verbatim>\<open>function clamp(n, min, max) { return Math.max(min, Math.min(max, n)); }\<close>
\<close>

definition clamp :: "number \<Rightarrow> number \<Rightarrow> number \<Rightarrow> number" where
  "clamp n mn mx = Math_max mn (Math_min mx n)"

text \<open>
  \<^verbatim>\<open>name.lastIndexOf(".")\<close>: the index of the last occurrence, \<open>-1\<close> when there is
  none. \<open>lastIndexOf_from\<close> scans from index \<open>i\<close> on and keeps the latest hit in \<open>acc\<close>.
\<close>

fun lastIndexOf_from :: "char \<Rightarrow> string \<Rightarrow> int \<Rightarrow> int \<Rightarrow> int" where
  "lastIndexOf_from c [] i acc = acc"
| "lastIndexOf_from c (x # xs) i acc =
     lastIndexOf_from c xs (i + 1) (if x = c then i else acc)"

definition lastIndexOf :: "string \<Rightarrow> char \<Rightarrow> int" where
  "lastIndexOf s c = lastIndexOf_from c s 0 (- 1)"

text \<open>
  \<^verbatim>\<open>function extOf(name) { const i = name.lastIndexOf("."); return i >= 0 ? name.slice(i) : ""; }\<close>
\<close>

definition extOf :: "string \<Rightarrow> string" where
  "extOf nm = (let i = lastIndexOf nm (CHR ''.'') in if i \<ge> 0 then drop (nat i) nm else [])"

text \<open>
  \<^verbatim>\<open>text.replace(/c/g, r)\<close> for a single character \<open>c\<close> and a replacement \<open>r\<close> without
  \<^verbatim>\<open>$\<close> patterns: every occurrence of \<open>c\<close> is replaced, left to right.
\<close>

definition replaceAll :: "char \<Rightarrow> string \<Rightarrow> string \<Rightarrow> string" where
  "replaceAll c r s = concat (map (\<lambda>x. if x = c then r else [x]) s)"

text \<open>
  \<^verbatim>\<open>
  function escapeDrawtext(text) {
    return text
      .replace(/:/g, '\\:')
      .replace(/'/g, "\\'")
      .replace(/\\/g, "\\\\");
  }
  \<close>
  The colon is replaced first, the quote second and the backslash last.
\<close>

definition escapeDrawtext :: "string \<Rightarrow> string" where
  "escapeDrawtext text =
     replaceAll backslash [backslash, backslash]
       (replaceAll quote [backslash, quote]
         (replaceAll colon [backslash, colon] text))"

text \<open>
  The reading of an escaped text by the filter syntax, one level of backslash escaping
  removed: a backslash stands for the character after it. This is the reading the
  specification asks the escaped caption to survive; it is not a function of the component.
\<close>

fun unescape :: "string \<Rightarrow> string" where
  "unescape [] = []"
| "unescape [c] = [c]"
| "unescape (c # d # s) = (if c = backslash then d # unescape s else c # unescape (d # s))"

text \<open>
  The order the specification words: the backslash first, then the quote and the colon.
  It is compared with \<open>escapeDrawtext\<close> below and is not the component's function.
\<close>

definition escapeDrawtext_backslash_first :: "string \<Rightarrow> string" where
  "escapeDrawtext_backslash_first text =
     replaceAll colon [backslash, colon]
       (replaceAll quote [backslash, quote]
         (replaceAll backslash [backslash, backslash] text))"

text \<open>
  \<^verbatim>\<open>caption.trim()\<close>: white space and line terminators are dropped at both ends. Of
  the code units in range these are tab, line feed, vertical tab, form feed, carriage
  return, space and the no-break space.
\<close>

definition isWhiteSpace :: "char \<Rightarrow> bool" where
  "isWhiteSpace c \<longleftrightarrow>
     c \<in> {CHR 0x09, CHR 0x0A, CHR 0x0B, CHR 0x0C, CHR 0x0D, CHR 0x20, CHR 0xA0}"

definition trim :: "string \<Rightarrow> string" where
  "trim s = rev (dropWhile isWhiteSpace (rev (dropWhile isWhiteSpace s)))"

section \<open>The filter expression of an item\<close>

text \<open>
  \<^verbatim>\<open>
  const scalePad = `scale=${resolution.w}:-2:force_original_aspect_ratio=decrease,pad=${resolution.w}:${resolution.h}:(ow-iw)/2:(oh-ih)/2:color=black,setsar=1`;
  \<close>
\<close>

definition scalePad :: "nat \<Rightarrow> nat \<Rightarrow> string" where
  "scalePad w h =
     ''scale='' @ String_nat w @ '':-2:force_original_aspect_ratio=decrease,pad=''
       @ String_nat w @ '':'' @ String_nat h @ '':(ow-iw)/2:(oh-ih)/2:color=black,setsar=1''"

text \<open>
  \<^verbatim>\<open>const hasCaption = it.caption.trim().length > 0 && fontPath;\<close> A string is truthy
  when it is not empty.
\<close>

definition hasCaption :: "string \<Rightarrow> string \<Rightarrow> bool" where
  "hasCaption caption fontPath \<longleftrightarrow> length (trim caption) > 0 \<and> fontPath \<noteq> []"

text \<open>
  \<^verbatim>\<open>
  const vf = hasCaption
    ? `${scalePad},drawtext=fontfile=${fontPath}:text='${escapeDrawtext(it.caption)}':fontcolor=white:fontsize=${Math.round(
        Math.min(resolution.w, resolution.h) / 18
      )}:x=(w-text_w)/2:y=h-(${Math.round(resolution.h / 8)}):shadowcolor=0x000000@0.5:shadowx=2:shadowy=2`
    : scalePad;
  \<close>
\<close>

definition vf :: "nat \<Rightarrow> nat \<Rightarrow> string \<Rightarrow> string \<Rightarrow> string" where
  "vf w h caption fontPath =
     (if hasCaption caption fontPath
      then scalePad w h @ '',drawtext=fontfile='' @ fontPath @ '':text='' @ [quote]
        @ escapeDrawtext caption @ [quote] @ '':fontcolor=white:fontsize=''
        @ String_int (Math_round (of_nat (min w h) / 18))
        @ '':x=(w-text_w)/2:y=h-('' @ String_int (Math_round (of_nat h / 8))
        @ ''):shadowcolor=0x000000@0.5:shadowx=2:shadowy=2''
      else scalePad w h)"

section \<open>Items and their identity-keyed patch\<close>

type_synonym bytes = "8 word list"

record File =
  name :: string
  content :: bytes

text \<open>
  \<^verbatim>\<open>type MediaItem = { id: string; file: File; caption: string; durationSec: number; }\<close>
  (the fields \<^verbatim>\<open>id\<close> and \<^verbatim>\<open>file\<close> are \<open>id_item\<close> and \<open>file_item\<close> here). A patch is a \<^verbatim>\<open>Partial<MediaItem>\<close>: each field
  is present or absent.
\<close>

record MediaItem =
  id_item :: string
  file_item :: File
  caption :: string
  durationSec :: number

record MediaItem_patch =
  patch_id :: "string option"
  patch_file :: "File option"
  patch_caption :: "string option"
  patch_durationSec :: "number option"

text \<open>\<^verbatim>\<open>{ ...it, ...patch }\<close>\<close>

definition spread :: "MediaItem \<Rightarrow> MediaItem_patch \<Rightarrow> MediaItem" where
  "spread it patch =
     \<lparr> id_item = (case patch_id patch of Some v \<Rightarrow> v | None \<Rightarrow> id_item it),
       file_item = (case patch_file patch of Some v \<Rightarrow> v | None \<Rightarrow> file_item it),
       caption = (case patch_caption patch of Some v \<Rightarrow> v | None \<Rightarrow> caption it),
       durationSec = (case patch_durationSec patch of Some v \<Rightarrow> v | None \<Rightarrow> durationSec it) \<rparr>"

text \<open>
  \<^verbatim>\<open>setItems((prev) => prev.map((it) => (it.id === id ? { ...it, ...patch } : it)));\<close>
\<close>

definition updateItem :: "string \<Rightarrow> MediaItem_patch \<Rightarrow> MediaItem list \<Rightarrow> MediaItem list" where
  "updateItem i patch prev = map (\<lambda>it. if id_item it = i then spread it patch else it) prev"

text \<open>
  The duration field is \<^verbatim>\<open><input type="number" ... value={it.durationSec} onChange=...>\<close>.
  The value of a number field is sanitized: it is the text typed when that is a valid
  floating-point number (an optional \<^verbatim>\<open>-\<close>, then digits, or a dot and digits, or both,
  then an optional exponent: \<^verbatim>\<open>e\<close> or \<^verbatim>\<open>E\<close>, an optional sign and digits), and the
  empty string otherwise. \<open>floating_point_number\<close> reads such a text and gives the number
  it denotes, \<open>None\<close> for any other text.
\<close>

definition isDigit :: "char \<Rightarrow> bool" where
  "isDigit c \<longleftrightarrow> c \<in> set ''0123456789''"

definition digits_value :: "string \<Rightarrow> nat" where
  "digits_value ds = foldl (\<lambda>a c. 10 * a + (of_char c - 48)) 0 ds"

definition exponent_of :: "string \<Rightarrow> int option" where
  "exponent_of s =
     (case s of
        [] \<Rightarrow> Some 0
      | c # r \<Rightarrow>
          if c = CHR ''e'' \<or> c = CHR ''E''
          then
            let (neg, ds) =
                  (case r of
                     [] \<Rightarrow> (False, [])
                   | d # r' \<Rightarrow>
                       if d = CHR ''-'' then (True, r')
                       else if d = CHR ''+'' then (False, r')
                       else (False, r))
            in if ds \<noteq> [] \<and> list_all isDigit ds
               then Some (if neg then - int (digits_value ds) else int (digits_value ds))
               else None
          else None)"

definition floating_point_number :: "string \<Rightarrow> rat option" where
  "floating_point_number s =
     (let (neg, s1) =
            (case s of
               [] \<Rightarrow> (False, [])
             | c # r \<Rightarrow> if c = CHR ''-'' then (True, r) else (False, s));
          ip = takeWhile isDigit s1;
          s2 = dropWhile isDigit s1;
          (frac_ok, fp, s3) =
            (case s2 of
               [] \<Rightarrow> (True, [], [])
             | c # r \<Rightarrow>
                 if c = CHR ''.''
                 then (takeWhile isDigit r \<noteq> [], takeWhile isDigit r, dropWhile isDigit r)
                 else (True, [], s2))
      in if frac_ok \<and> (ip \<noteq> [] \<or> fp \<noteq> [])
         then
           (case exponent_of s3 of
              None \<Rightarrow> None
            | Some e \<Rightarrow>
                let m = of_nat (digits_value ip) + of_nat (digits_value fp) / 10 ^ length fp;
                    v = (if e \<ge> 0 then m * 10 ^ nat e else m / 10 ^ nat (- e))
                in Some (if neg then - v else v))
         else None)"

definition sanitize :: "string \<Rightarrow> string" where
  "sanitize typed = (if floating_point_number typed = None then [] else typed)"

text \<open>
  \<^verbatim>\<open>Number(e.target.value)\<close> on the value of the field: 0 for the empty string and the
  number denoted for a valid floating-point number. The finite values being rationals, a
  number too large for a double stays finite here where \<^verbatim>\<open>Number\<close> gives an infinity;
  \<open>clamp\<close> takes both to the same bound. On any other string the field never holds the
  result is \<^verbatim>\<open>NaN\<close> here.
\<close>

definition Number_value :: "string \<Rightarrow> number" where
  "Number_value v =
     (if v = [] then Finite 0
      else case floating_point_number v of Some q \<Rightarrow> Finite q | None \<Rightarrow> NaN)"

text \<open>
  The duration field's handler,
  \<^verbatim>\<open>onChange={(e) => updateItem(it.id, { durationSec: clamp(Number(e.target.value), 0.2, 120) })}\<close>,
  with \<open>v\<close> for \<^verbatim>\<open>e.target.value\<close>, the value of the field.
\<close>

definition onChangeDuration :: "string \<Rightarrow> string \<Rightarrow> MediaItem list \<Rightarrow> MediaItem list" where
  "onChangeDuration i v prev =
     updateItem i
       \<lparr> patch_id = None, patch_file = None, patch_caption = None,
         patch_durationSec = Some (clamp (Number_value v) (Finite (1 / 5)) (Finite 120)) \<rparr> prev"

section \<open>The component's state and the engine\<close>

text \<open>The object URL of the blob made from the bytes read: an opaque handle to them.\<close>

datatype url = ObjectURL bytes

text \<open>
  The \<^verbatim>\<open>useState\<close> cells of the component and \<^verbatim>\<open>ffmpegRef\<close>, which holds the loaded
  engine or nothing.
\<close>

record state =
  items :: "MediaItem list"
  audioFile :: "File option"
  isBusy :: bool
  progress :: int
  message :: string
  videoUrl :: "url option"
  resolution_w :: nat
  resolution_h :: nat
  fps :: nat
  fontUrl :: string
  ffmpegRef :: bool

text \<open>
  Every call \<^verbatim>\<open>createVideo\<close> awaits, in a \<open>trace\<close> with whether it returned (\<open>True\<close>)
  or threw (\<open>False\<close>), the oldest call first.
\<close>

datatype source = Url string | FromFile File

datatype call =
    ToBlobURL string
  | Load
  | ListDir string
  | DeleteFile string
  | FetchFile source
  | WriteFile string bytes
  | Exec "string list"
  | ReadFile string

type_synonym trace = "(call \<times> bool) list"

text \<open>
  The engine, the network and the runtime are parameters: each operation answers from the
  calls made so far and its arguments, \<open>False\<close> or \<open>None\<close> when it throws. \<open>exec\<close>
  answers \<open>None\<close> when its promise rejects and \<open>Some c\<close> when it resolves with the exit
  code \<open>c\<close> of the command, 0 for a command that succeeded. The code awaits the promise
  and drops the exit code: to \<open>call_exec\<close> a command has returned as soon as the promise
  resolves. \<open>String_number\<close> is \<^verbatim>\<open>String\<close> on a duration.
\<close>

record platform =
  toBlobURL :: "trace \<Rightarrow> string \<Rightarrow> bool"
  load :: "trace \<Rightarrow> bool"
  listDir :: "trace \<Rightarrow> string \<Rightarrow> string list option"
  deleteFile :: "trace \<Rightarrow> string \<Rightarrow> bool"
  fetchFile :: "trace \<Rightarrow> source \<Rightarrow> bytes option"
  writeFile :: "trace \<Rightarrow> string \<Rightarrow> bytes \<Rightarrow> bool"
  exec :: "trace \<Rightarrow> string list \<Rightarrow> int option"
  readFile :: "trace \<Rightarrow> string \<Rightarrow> bytes option"
  String_number :: "number \<Rightarrow> string"

definition call_toBlobURL :: "platform \<Rightarrow> string \<Rightarrow> trace \<Rightarrow> bool \<times> trace" where
  "call_toBlobURL P u tr = (let ok = toBlobURL P tr u in (ok, tr @ [(ToBlobURL u, ok)]))"

definition call_load :: "platform \<Rightarrow> trace \<Rightarrow> bool \<times> trace" where
  "call_load P tr = (let ok = load P tr in (ok, tr @ [(Load, ok)]))"

definition call_listDir :: "platform \<Rightarrow> string \<Rightarrow> trace \<Rightarrow> string list option \<times> trace" where
  "call_listDir P d tr = (let r = listDir P tr d in (r, tr @ [(ListDir d, r \<noteq> None)]))"

definition call_deleteFile :: "platform \<Rightarrow> string \<Rightarrow> trace \<Rightarrow> bool \<times> trace" where
  "call_deleteFile P f tr = (let ok = deleteFile P tr f in (ok, tr @ [(DeleteFile f, ok)]))"

definition call_fetchFile :: "platform \<Rightarrow> source \<Rightarrow> trace \<Rightarrow> bytes option \<times> trace" where
  "call_fetchFile P s tr = (let r = fetchFile P tr s in (r, tr @ [(FetchFile s, r \<noteq> None)]))"

definition call_writeFile :: "platform \<Rightarrow> string \<Rightarrow> bytes \<Rightarrow> trace \<Rightarrow> bool \<times> trace" where
  "call_writeFile P f b tr = (let ok = writeFile P tr f b in (ok, tr @ [(WriteFile f b, ok)]))"

definition call_exec :: "platform \<Rightarrow> string list \<Rightarrow> trace \<Rightarrow> bool \<times> trace" where
  "call_exec P a tr = (let ok = (exec P tr a \<noteq> None) in (ok, tr @ [(Exec a, ok)]))"

definition call_readFile :: "platform \<Rightarrow> string \<Rightarrow> trace \<Rightarrow> bytes option \<times> trace" where
  "call_readFile P f tr = (let r = readFile P tr f in (r, tr @ [(ReadFile f, r \<noteq> None)]))"

section \<open>The run\<close>

text \<open>
  \<^verbatim>\<open>
  const ensureFFmpeg = useCallback(async () => {
    if (ffmpegRef.current) return ffmpegRef.current;
    const ffmpeg = new FFmpeg();
    ...
    const base = `https://unpkg.com/@ffmpeg/core@${CORE_VERSION}/dist`;
    await ffmpeg.load({
      coreURL: await toBlobURL(`${base}/ffmpeg-core.js`, "text/javascript"),
      wasmURL: await toBlobURL(`${base}/ffmpeg-core.wasm`, "application/wasm"),
      workerURL: await toBlobURL(`${base}/ffmpeg-core.worker.js`, "text/javascript"),
    });
    ffmpegRef.current = ffmpeg;
    return ffmpeg;
  }, []);
  \<close>
  The result says whether an engine is at hand; it is the new value of \<open>ffmpegRef\<close>.
\<close>

definition CORE_VERSION :: string where
  "CORE_VERSION = ''0.12.6''"

definition base :: string where
  "base = ''https://unpkg.com/@ffmpeg/core@'' @ CORE_VERSION @ ''/dist''"

definition ensureFFmpeg :: "platform \<Rightarrow> bool \<Rightarrow> trace \<Rightarrow> bool \<times> trace" where
  "ensureFFmpeg P current tr =
     (if current then (True, tr)
      else
        let (ok1, tr1) = call_toBlobURL P (base @ ''/ffmpeg-core.js'') tr in
        if \<not> ok1 then (False, tr1)
        else
          let (ok2, tr2) = call_toBlobURL P (base @ ''/ffmpeg-core.wasm'') tr1 in
          if \<not> ok2 then (False, tr2)
          else
            let (ok3, tr3) = call_toBlobURL P (base @ ''/ffmpeg-core.worker.js'') tr2 in
            if \<not> ok3 then (False, tr3)
            else call_load P tr3)"

text \<open>
  \<^verbatim>\<open>
  try {
    const files = await ffmpeg.listDir("/");
    for (const f of files) {
      if (f.name && f.name !== "." && f.name !== "..") {
        try { await ffmpeg.deleteFile(`/${f.name}`); } catch {}
      }
    }
  } catch {}
  \<close>
\<close>

fun deleteAll :: "platform \<Rightarrow> string list \<Rightarrow> trace \<Rightarrow> trace" where
  "deleteAll P [] tr = tr"
| "deleteAll P (f # fs) tr =
     (if f \<noteq> [] \<and> f \<noteq> ''.'' \<and> f \<noteq> ''..''
      then deleteAll P fs (snd (call_deleteFile P (''/'' @ f) tr))
      else deleteAll P fs tr)"

definition resetFS :: "platform \<Rightarrow> trace \<Rightarrow> trace" where
  "resetFS P tr =
     (let (files, tr1) = call_listDir P ''/'' tr in
      case files of None \<Rightarrow> tr1 | Some fs \<Rightarrow> deleteAll P fs tr1)"

text \<open>
  \<^verbatim>\<open>
  let fontPath = "font.ttf";
  try {
    const fontBin = await fetchFile(fontUrl);
    await ffmpeg.writeFile(fontPath, fontBin);
  } catch {
    fontPath = "";
  }
  \<close>
\<close>

definition writeFont :: "platform \<Rightarrow> string \<Rightarrow> trace \<Rightarrow> string \<times> trace" where
  "writeFont P fontUrl_now tr =
     (let fontPath = ''font.ttf'';
          (fontBin, tr1) = call_fetchFile P (Url fontUrl_now) tr in
      case fontBin of
        None \<Rightarrow> ([], tr1)
      | Some b \<Rightarrow>
          let (ok, tr2) = call_writeFile P fontPath b tr1 in
          if ok then (fontPath, tr2) else ([], tr2))"

text \<open>
  The names and the arguments of one item's render, for the resolution \<open>w\<close>, \<open>h\<close> and
  the frame rate \<open>rate\<close> of the state (\<^verbatim>\<open>resolution.w\<close>, \<^verbatim>\<open>resolution.h\<close>, \<^verbatim>\<open>fps\<close>):
  \<^verbatim>\<open>
  const inputName = `input_${i}${extOf(it.file.name)}`;
  const partName = `part_${i}.mp4`;
  const args = [
    "-loop", "1",
    "-t", String(Math.max(0.2, it.durationSec)),
    "-i", inputName,
    "-r", String(fps),
    "-vf", vf,
    "-an",
    "-c:v", "libx264",
    "-pix_fmt", "yuv420p",
    "-movflags", "+faststart",
    partName,
  ];
  \<close>
\<close>

definition inputName :: "nat \<Rightarrow> MediaItem \<Rightarrow> string" where
  "inputName i it = ''input_'' @ String_nat i @ extOf (name (file_item it))"

definition partName :: "nat \<Rightarrow> string" where
  "partName i = ''part_'' @ String_nat i @ ''.mp4''"

definition args ::
  "platform \<Rightarrow> nat \<Rightarrow> nat \<Rightarrow> nat \<Rightarrow> string \<Rightarrow> nat \<Rightarrow> MediaItem \<Rightarrow> string list" where
  "args P w h rate fontPath i it =
     [''-loop'', ''1'',
      ''-t'', String_number P (Math_max (Finite (1 / 5)) (durationSec it)),
      ''-i'', inputName i it,
      ''-r'', String_nat rate,
      ''-vf'', vf w h (caption it) fontPath,
      ''-an'',
      ''-c:v'', ''libx264'',
      ''-pix_fmt'', ''yuv420p'',
      ''-movflags'', ''+faststart'',
      partName i]"

text \<open>
  The loop over the items, from index \<open>i\<close> on:
  \<^verbatim>\<open>
  const partNames: string[] = [];
  for (let i = 0; i < items.length; i++) {
    const it = items[i];
    ...
    await ffmpeg.writeFile(inputName, await fetchFile(it.file));
    ...
    await ffmpeg.exec(["-y", ...args]);
    partNames.push(partName);
  }
  \<close>
  A call that throws leaves the loop and the \<^verbatim>\<open>try\<close> block: the result is \<open>None\<close>.
\<close>

fun renderLoop ::
  "platform \<Rightarrow> nat \<Rightarrow> nat \<Rightarrow> nat \<Rightarrow> string \<Rightarrow> nat \<Rightarrow> MediaItem list \<Rightarrow> string list \<Rightarrow> trace
     \<Rightarrow> string list option \<times> trace" where
  "renderLoop P w h rate fontPath i [] partNames tr = (Some partNames, tr)"
| "renderLoop P w h rate fontPath i (it # rest) partNames tr =
     (let (bin, tr1) = call_fetchFile P (FromFile (file_item it)) tr in
      case bin of
        None \<Rightarrow> (None, tr1)
      | Some b \<Rightarrow>
          let (ok2, tr2) = call_writeFile P (inputName i it) b tr1 in
          if \<not> ok2 then (None, tr2)
          else
            let (ok3, tr3) = call_exec P (''-y'' # args P w h rate fontPath i it) tr2 in
            if \<not> ok3 then (None, tr3)
            else renderLoop P w h rate fontPath (Suc i) rest (partNames @ [partName i]) tr3)"

text \<open>
  \<^verbatim>\<open>
  const listTxt = partNames.map((p) => `file '${p}'`).join("\n");
  await ffmpeg.writeFile("concat_list.txt", new TextEncoder().encode(listTxt));
  await ffmpeg.exec(["-y", "-f", "concat", "-safe", "0", "-i", "concat_list.txt", "-c", "copy", "output_video.mp4"]);
  \<close>
\<close>

fun join :: "string \<Rightarrow> string list \<Rightarrow> string" where
  "join sep [] = []"
| "join sep [x] = x"
| "join sep (x # y # ys) = x @ sep @ join sep (y # ys)"

definition listTxt :: "string list \<Rightarrow> string" where
  "listTxt partNames = join [CHR 0x0A] (map (\<lambda>p. ''file '' @ [quote] @ p @ [quote]) partNames)"

text \<open>\<^verbatim>\<open>TextEncoder\<close>: UTF-8, one byte below 128 and two bytes from there on.\<close>

definition encode :: "string \<Rightarrow> bytes" where
  "encode s =
     concat (map (\<lambda>c. let n = (of_char c :: nat) in
                       if n < 128 then [of_nat n]
                       else [of_nat (192 + n div 64), of_nat (128 + n mod 64)]) s)"

definition concatArgs :: "string list" where
  "concatArgs =
     [''-y'', ''-f'', ''concat'', ''-safe'', ''0'', ''-i'', ''concat_list.txt'',
      ''-c'', ''copy'', ''output_video.mp4'']"

text \<open>
  \<^verbatim>\<open>
  let finalName = "final.mp4";
  if (audioFile) {
    await ffmpeg.writeFile("audio_in", await fetchFile(audioFile));
    try {
      await ffmpeg.exec([
        "-y", "-i", "output_video.mp4", "-i", "audio_in", "-shortest",
        "-map", "0:v:0", "-map", "1:a:0", "-c:v", "copy", "-c:a", "aac", "-b:a", "192k",
        finalName,
      ]);
    } catch (e) {
      finalName = "output_video.mp4";
    }
  } else {
    finalName = "output_video.mp4";
  }
  \<close>
  The result is \<open>finalName\<close>, or \<open>None\<close> when staging the audio throws.
\<close>

definition muxArgs :: "string \<Rightarrow> string list" where
  "muxArgs finalName =
     [''-y'', ''-i'', ''output_video.mp4'', ''-i'', ''audio_in'', ''-shortest'',
      ''-map'', ''0:v:0'', ''-map'', ''1:a:0'', ''-c:v'', ''copy'', ''-c:a'', ''aac'',
      ''-b:a'', ''192k'', finalName]"

definition muxAudio :: "platform \<Rightarrow> File option \<Rightarrow> trace \<Rightarrow> string option \<times> trace" where
  "muxAudio P audio tr =
     (let finalName = ''final.mp4'' in
      case audio of
        Some f \<Rightarrow>
          let (bin, tr1) = call_fetchFile P (FromFile f) tr in
          (case bin of
             None \<Rightarrow> (None, tr1)
           | Some b \<Rightarrow>
               let (ok2, tr2) = call_writeFile P ''audio_in'' b tr1 in
               if \<not> ok2 then (None, tr2)
               else
                 let (ok3, tr3) = call_exec P (muxArgs finalName) tr2 in
                 if ok3 then (Some finalName, tr3) else (Some ''output_video.mp4'', tr3))
      | None \<Rightarrow> (Some ''output_video.mp4'', tr))"

text \<open>
  The \<^verbatim>\<open>try\<close> block of \<^verbatim>\<open>createVideo\<close>, from \<^verbatim>\<open>ensureFFmpeg\<close> to
  \<^verbatim>\<open>const data = await ffmpeg.readFile(finalName);\<close>. The result is the data read
  (\<open>None\<close> when a call threw and nothing caught it), the new \<open>ffmpegRef\<close> and the trace.
\<close>

definition tryBlock :: "platform \<Rightarrow> state \<Rightarrow> bytes option \<times> bool \<times> trace" where
  "tryBlock P st =
     (let (ffmpeg, tr1) = ensureFFmpeg P (ffmpegRef st) [] in
      if \<not> ffmpeg then (None, False, tr1)
      else
        let tr2 = resetFS P tr1;
            (fontPath, tr3) = writeFont P (fontUrl st) tr2;
            (parts, tr4) =
              renderLoop P (resolution_w st) (resolution_h st) (fps st) fontPath 0 (items st) [] tr3 in
        case parts of
          None \<Rightarrow> (None, True, tr4)
        | Some partNames \<Rightarrow>
            let (ok5, tr5) =
                  call_writeFile P ''concat_list.txt'' (encode (listTxt partNames)) tr4 in
            if \<not> ok5 then (None, True, tr5)
            else
              let (ok6, tr6) = call_exec P concatArgs tr5 in
              if \<not> ok6 then (None, True, tr6)
              else
                let (final, tr7) = muxAudio P (audioFile st) tr6 in
                case final of
                  None \<Rightarrow> (None, True, tr7)
                | Some finalName \<Rightarrow>
                    let (data, tr8) = call_readFile P finalName tr7 in (data, True, tr8))"

text \<open>
  The two messages, as the source file has them:
  \<^verbatim>\<open>setMessage("??????! ???????? ???? ????? ????.");\<close> after the read and
  \<^verbatim>\<open>setMessage("?????? ??? ???????? ?????. ?????????? ????????? ?????? ??? ????????????? ????????.");\<close>
  in the \<^verbatim>\<open>catch\<close> block.
\<close>

definition doneMessage :: string where
  "doneMessage = ''??????! ???????? ???? ????? ????.''"

definition errorMessage :: string where
  "errorMessage =
     ''?????? ??? ???????? ?????. ?????????? ????????? ?????? ??? ????????????? ????????.''"

text \<open>
  \<^verbatim>\<open>
  const createVideo = useCallback(async () => {
    setIsBusy(true); setMessage(""); setProgress(0); setVideoUrl(null);
    try {
      ...
      const data = await ffmpeg.readFile(finalName);
      const blob = new Blob([data as Uint8Array], { type: "video/mp4" });
      const url = URL.createObjectURL(blob);
      setVideoUrl(url);
      setMessage(...);
    } catch (e: any) {
      setMessage(...);
    } finally {
      setIsBusy(false); setProgress(0);
    }
  }, ...);
  \<close>
  The result is the state after the run and the calls made. The progress events of the
  engine set \<open>progress\<close> while a command runs; the \<^verbatim>\<open>finally\<close> block resets it, and they
  are left out.
\<close>

definition createVideo :: "platform \<Rightarrow> state \<Rightarrow> state \<times> trace" where
  "createVideo P st =
     (let st1 = st\<lparr>isBusy := True, message := [], progress := 0, videoUrl := None\<rparr>;
          (res, ffmpeg, tr) = tryBlock P st1;
          st2 = (case res of
                   Some data \<Rightarrow> st1\<lparr>videoUrl := Some (ObjectURL data), message := doneMessage\<rparr>
                 | None \<Rightarrow> st1\<lparr>message := errorMessage\<rparr>)
      in (st2\<lparr>isBusy := False, progress := 0, ffmpegRef := ffmpeg\<rparr>, tr))"

text \<open>
  \<^verbatim>\<open>const canCreate = useMemo(() => items.length > 0 && !isBusy, [items.length, isBusy]);\<close>
  and the button \<^verbatim>\<open><button className="btn" disabled={!canCreate} onClick={createVideo}>\<close>:
  a click on the disabled button calls nothing.
\<close>

definition canCreate :: "state \<Rightarrow> bool" where
  "canCreate st \<longleftrightarrow> length (items st) > 0 \<and> \<not> isBusy st"

definition onClick :: "platform \<Rightarrow> state \<Rightarrow> state \<times> trace" where
  "onClick P st = (if canCreate st then createVideo P st else (st, []))"

section \<open>What a trace shows\<close>

text \<open>
  The argument lists of the \<^verbatim>\<open>exec\<close> calls of a trace in order, the names of the files
  read, and the calls that threw.
\<close>

fun exec_args :: "call \<Rightarrow> string list list" where
  "exec_args (Exec a) = [a]"
| "exec_args _ = []"

definition execs :: "trace \<Rightarrow> string list list" where
  "execs tr = concat (map (\<lambda>e. exec_args (fst e)) tr)"

fun read_name :: "call \<Rightarrow> string list" where
  "read_name (ReadFile f) = [f]"
| "read_name _ = []"

definition reads :: "trace \<Rightarrow> string list" where
  "reads tr = concat (map (\<lambda>e. read_name (fst e)) tr)"

definition failures :: "trace \<Rightarrow> call list" where
  "failures tr = map fst (filter (\<lambda>e. \<not> snd e) tr)"

text \<open>
  The calls by the stage that makes them: loading the engine and clearing its files, and
  staging and rendering an item. \<open>font_fetch\<close> holds of the fetch of a URL, which
  \<^verbatim>\<open>createVideo\<close> does for the font only.
\<close>

fun setup_call :: "call \<Rightarrow> bool" where
  "setup_call (ToBlobURL _) = True"
| "setup_call Load = True"
| "setup_call (ListDir _) = True"
| "setup_call (DeleteFile _) = True"
| "setup_call _ = False"

fun item_call :: "call \<Rightarrow> bool" where
  "item_call (FetchFile (FromFile _)) = True"
| "item_call (WriteFile _ _) = True"
| "item_call (Exec a) = (length a = 19)"
| "item_call _ = False"

fun font_fetch :: "call \<Rightarrow> bool" where
  "font_fetch (FetchFile (Url _)) = True"
| "font_fetch _ = False"

section \<open>Example inputs\<close>

text \<open>
  Two items, a state holding them at the default settings, and engines to run it on: one
  on which every call returns and every command succeeds, one that cannot fetch the font,
  one whose \<open>exec\<close> rejects the mux command, and one on which the mux command fails as a
  command does: \<open>exec\<close> resolves with exit code 1 and no \<^verbatim>\<open>final.mp4\<close> is there to
  read. \<open>String_tenths\<close> is \<^verbatim>\<open>String\<close> on the numbers with at most one decimal digit,
  such as the durations 3 and 0.2 of the examples; it drops any further digit.
\<close>

definition item0 :: MediaItem where
  "item0 =
     \<lparr> id_item = ''a'', file_item = \<lparr>name = ''photo.final.png'', content = [1, 2]\<rparr>,
       caption = ''Hi'', durationSec = Finite 3 \<rparr>"

definition item1 :: MediaItem where
  "item1 =
     \<lparr> id_item = ''b'', file_item = \<lparr>name = ''README'', content = [3]\<rparr>,
       caption = [], durationSec = Finite (1 / 10) \<rparr>"

definition st0 :: state where
  "st0 =
     \<lparr> items = [item0, item1], audioFile = None, isBusy = False, progress = 0, message = [],
       videoUrl = None, resolution_w = 1280, resolution_h = 720, fps = 30,
       fontUrl = ''https://fonts.gstatic.com/s/roboto/v30/KFOmCnqEu92Fr1Mu4mxP.ttf'',
       ffmpegRef = False \<rparr>"

definition st_empty :: state where
  "st_empty = st0\<lparr>items := []\<rparr>"

definition st_audio :: state where
  "st_audio = st0\<lparr>audioFile := Some \<lparr>name = ''song.ogg'', content = [9]\<rparr>\<rparr>"

definition String_tenths :: "number \<Rightarrow> string" where
  "String_tenths n =
     (case n of
        NaN \<Rightarrow> ''NaN''
      | NegInfinity \<Rightarrow> ''-Infinity''
      | PosInfinity \<Rightarrow> ''Infinity''
      | Finite q \<Rightarrow>
          String_int \<lfloor>q\<rfloor>
            @ (if q = of_int \<lfloor>q\<rfloor> then [] else ''.'' @ String_int \<lfloor>(q - of_int \<lfloor>q\<rfloor>) * 10\<rfloor>))"

definition engine_ok :: platform where
  "engine_ok =
     \<lparr> toBlobURL = (\<lambda>_ _. True),
       load = (\<lambda>_. True),
       listDir = (\<lambda>_ _. Some [''.'', ''..'', ''old.mp4'']),
       deleteFile = (\<lambda>_ _. True),
       fetchFile = (\<lambda>_ s. case s of Url _ \<Rightarrow> Some [0] | FromFile f \<Rightarrow> Some (content f)),
       writeFile = (\<lambda>_ _ _. True),
       exec = (\<lambda>_ _. Some 0),
       readFile = (\<lambda>_ _. Some [7]),
       String_number = String_tenths \<rparr>"

definition engine_no_font :: platform where
  "engine_no_font =
     engine_ok\<lparr>fetchFile := (\<lambda>_ s. case s of Url _ \<Rightarrow> None | FromFile f \<Rightarrow> Some (content f))\<rparr>"

definition engine_no_aac :: platform where
  "engine_no_aac =
     engine_ok\<lparr>exec := (\<lambda>_ a. if a = muxArgs ''final.mp4'' then None else Some 0)\<rparr>"

definition engine_aac_exit_1 :: platform where
  "engine_aac_exit_1 =
     engine_ok
       \<lparr> exec := (\<lambda>_ a. if a = muxArgs ''final.mp4'' then Some 1 else Some 0),
         readFile := (\<lambda>_ f. if f = ''final.mp4'' then None else Some [7]) \<rparr>"

section \<open>Decimal digits and rounding\<close>

lemma digit_char_simps:
  "d < 10 \<Longrightarrow> digit_char d \<in> set ''0123456789''"
  unfolding digit_char_def by (rule nth_mem) simp

lemma String_nat_digits: "set (String_nat n) \<subseteq> set ''0123456789''"
proof (induction n rule: String_nat.induct)
  case (1 n)
  show ?case
  proof (cases "n < 10")
    case True
    then show ?thesis using digit_char_simps[of n] by (subst String_nat.simps) simp
  next
    case False
    have "n mod 10 < 10" by simp
    from digit_char_simps[OF this] 1[OF False] False show ?thesis
      by (subst String_nat.simps) auto
  qed
qed

lemma String_nat_no_comma: "CHR '','' \<notin> set (String_nat n)"
  using String_nat_digits[of n] by auto

lemma String_nat_nonempty: "String_nat n \<noteq> []"
  by (subst String_nat.simps) simp

lemma Math_round_div: "Math_round (of_nat m / of_nat (2 * k)) = int ((m + k) div (2 * k))" if "k > 0"
proof -
  have "(of_nat m / of_nat (2 * k) + 1 / 2 :: rat) = of_nat (m + k) / of_nat (2 * k)"
    using that by (simp add: field_simps)
  then show ?thesis
    unfolding Math_round_def by (simp only: floor_divide_of_nat_eq)
qed

lemma Math_round_18: "Math_round (of_nat m / 18) = int ((m + 9) div 18)"
  using Math_round_div[of 9 m] by simp

lemma Math_round_8: "Math_round (of_nat m / 8) = int ((m + 4) div 8)"
  using Math_round_div[of 4 m] by simp

lemma String_int_nat: "String_int (int n) = String_nat n"
  by (simp add: String_int_def)

lemma takeWhile_scale:
  "takeWhile (\<lambda>c. c \<noteq> CHR '','') (scalePad w h) =
     ''scale='' @ String_nat w @ '':-2:force_original_aspect_ratio=decrease''"
proof -
  have "takeWhile (\<lambda>c. c \<noteq> CHR '','') (String_nat w @ rest) = String_nat w @ takeWhile (\<lambda>c. c \<noteq> CHR '','') rest" for rest
    using String_nat_no_comma[of w] by (intro takeWhile_append2) auto
  then show ?thesis by (simp add: scalePad_def)
qed

lemma S1280: "String_nat 1280 = ''1280''"
  by (simp add: String_nat.simps digit_char_def)
lemma S720: "String_nat 720 = ''720''"
  by (simp add: String_nat.simps digit_char_def)

section \<open>Escaping, clamping and file extensions\<close>

lemma replaceAll_Nil: "replaceAll c r [] = []"
  by (simp add: replaceAll_def)

lemma replaceAll_Cons: "replaceAll c r (x # s) = (if x = c then r else [x]) @ replaceAll c r s"
  by (simp add: replaceAll_def)

lemma replaceAll_append: "replaceAll c r (s @ t) = replaceAll c r s @ replaceAll c r t"
  by (simp add: replaceAll_def)

lemma special_distinct:
  "colon \<noteq> quote" "colon \<noteq> backslash" "quote \<noteq> backslash"
  "quote \<noteq> colon" "backslash \<noteq> colon" "backslash \<noteq> quote"
  by (simp_all add: colon_def quote_def backslash_def)

lemma escapeDrawtext_Nil: "escapeDrawtext [] = []"
  by (simp add: escapeDrawtext_def replaceAll_Nil)

lemma escapeDrawtext_Cons:
  "escapeDrawtext (x # s) =
     (if x = colon then [backslash, backslash, colon]
      else if x = quote then [backslash, backslash, quote]
      else if x = backslash then [backslash, backslash]
      else [x]) @ escapeDrawtext s"
  by (simp add: escapeDrawtext_def replaceAll_Cons replaceAll_append replaceAll_Nil special_distinct)

lemma unescape_plain: "x \<noteq> backslash \<Longrightarrow> unescape (x # s) = x # unescape s"
  by (cases s) simp_all

lemma unescape_escapeDrawtext_Cons:
  "unescape (escapeDrawtext (x # s)) =
     (if x = colon then [backslash, colon]
      else if x = quote then [backslash, quote]
      else [x]) @ unescape (escapeDrawtext s)"
  by (simp add: escapeDrawtext_Cons unescape_plain special_distinct)

lemma length_unescape_escapeDrawtext:
  "length (unescape (escapeDrawtext s)) = length s + length (filter (\<lambda>x. x = colon \<or> x = quote) s)"
  by (induction s) (simp_all add: escapeDrawtext_Nil unescape_escapeDrawtext_Cons)

lemma unescape_escapeDrawtext_plain:
  "colon \<notin> set s \<Longrightarrow> quote \<notin> set s \<Longrightarrow> unescape (escapeDrawtext s) = s"
  by (induction s) (auto simp add: escapeDrawtext_Nil unescape_escapeDrawtext_Cons)

text \<open>
  The escaped caption reads back as the caption exactly when the caption has neither a
  colon nor a quote in it.
\<close>
theorem escapeDrawtext_roundtrip_iff:
  "unescape (escapeDrawtext s) = s \<longleftrightarrow> colon \<notin> set s \<and> quote \<notin> set s"
proof
  assume eq: "unescape (escapeDrawtext s) = s"
  have "length (filter (\<lambda>x. x = colon \<or> x = quote) s) = 0"
    using length_unescape_escapeDrawtext[of s] eq by simp
  then show "colon \<notin> set s \<and> quote \<notin> set s"
    by (auto simp add: filter_empty_conv)
next
  assume "colon \<notin> set s \<and> quote \<notin> set s"
  then show "unescape (escapeDrawtext s) = s"
    by (simp add: unescape_escapeDrawtext_plain)
qed

lemma escapeDrawtext_backslash_first_Cons:
  "escapeDrawtext_backslash_first (x # s) =
     (if x = backslash \<or> x = quote \<or> x = colon then [backslash, x] else [x])
       @ escapeDrawtext_backslash_first s"
  by (simp add: escapeDrawtext_backslash_first_def replaceAll_Cons replaceAll_append
      replaceAll_Nil special_distinct)

lemma backslash_first_roundtrip: "unescape (escapeDrawtext_backslash_first s) = s"
proof (induction s)
  case Nil
  show ?case by (simp add: escapeDrawtext_backslash_first_def replaceAll_Nil)
next
  case (Cons x s)
  then show ?case
    by (simp add: escapeDrawtext_backslash_first_Cons unescape_plain)
qed

text \<open>
  Claim C1. The escaped caption is to read back as the caption itself, the backslash being
  escaped before the colon and the quote. \<open>escapeDrawtext\<close> replaces the backslash last,
  so it doubles the backslash it has just put before a colon or a quote: the caption
  \<^verbatim>\<open>10:30\<close> is escaped with two backslashes before the colon and reads back with a
  backslash left in it. Escaped in the order the claim names, it reads back unchanged.
\<close>
theorem escapeDrawtext_colon_doubly_escaped:
  "escapeDrawtext ''10:30'' = ''10'' @ [backslash, backslash, colon] @ ''30'' \<and>
   unescape (escapeDrawtext ''10:30'') = ''10'' @ [backslash, colon] @ ''30'' \<and>
   unescape (escapeDrawtext ''10:30'') \<noteq> ''10:30'' \<and>
   unescape (escapeDrawtext_backslash_first ''10:30'') = ''10:30''"
  by (simp add: escapeDrawtext_Cons escapeDrawtext_Nil unescape_plain backslash_first_roundtrip
      colon_def quote_def backslash_def)

lemma clamp_range:
  assumes "n \<noteq> NaN"
  shows "num_le (Finite (1 / 5)) (clamp n (Finite (1 / 5)) (Finite 120)) \<and>
         num_le (clamp n (Finite (1 / 5)) (Finite 120)) (Finite 120)"
  using assms by (cases n) (simp_all add: clamp_def Math_max_def Math_min_def)

lemma durationSec_spread:
  "durationSec (spread it \<lparr>patch_id = None, patch_file = None, patch_caption = None,
     patch_durationSec = Some v\<rparr>) = v"
  by (simp add: spread_def)

lemma Number_value_sanitize: "Number_value (sanitize typed) \<noteq> NaN"
  by (simp add: Number_value_def sanitize_def split: option.split)

text \<open>
  Claim C9. Whatever text is typed into the duration field, the value of the field is a
  valid floating-point number or empty, its number is not \<^verbatim>\<open>NaN\<close>, and the handler
  stores \<open>clamp\<close> of that number, which lies between 0.2 and 120, in every item with the
  given identity and leaves the other items as they are. \<open>clamp n 0.2 120\<close> lies between
  0.2 and 120 for every number \<open>n\<close> that is one, the infinities included.
\<close>
theorem duration_in_range:
  "num_le (Finite (1 / 5)) (clamp (Number_value (sanitize typed)) (Finite (1 / 5)) (Finite 120)) \<and>
   num_le (clamp (Number_value (sanitize typed)) (Finite (1 / 5)) (Finite 120)) (Finite 120) \<and>
   (\<forall>k < length prev. id_item (prev ! k) = i \<longrightarrow>
      durationSec (onChangeDuration i (sanitize typed) prev ! k) =
        clamp (Number_value (sanitize typed)) (Finite (1 / 5)) (Finite 120)) \<and>
   (\<forall>k < length prev. id_item (prev ! k) \<noteq> i \<longrightarrow>
      onChangeDuration i (sanitize typed) prev ! k = prev ! k) \<and>
   (n \<noteq> NaN \<longrightarrow>
      num_le (Finite (1 / 5)) (clamp n (Finite (1 / 5)) (Finite 120)) \<and>
      num_le (clamp n (Finite (1 / 5)) (Finite 120)) (Finite 120))"
  using clamp_range[OF Number_value_sanitize[of typed]] clamp_range[of n]
  by (simp add: onChangeDuration_def updateItem_def durationSec_spread)

lemma fpn_500: "floating_point_number ''500'' = Some 500"
  by (simp add: floating_point_number_def isDigit_def digits_value_def exponent_of_def)

lemma fpn_abc: "floating_point_number ''abc'' = None"
  by (simp add: floating_point_number_def isDigit_def digits_value_def exponent_of_def)

lemma fpn_tenth: "floating_point_number ''0.1'' = Some (1 / 10)"
  by (simp add: floating_point_number_def isDigit_def digits_value_def exponent_of_def)

theorem duration_in_range_witness:
  "(0::nat) < length [item0] \<and> id_item ([item0] ! 0) = ''a'' \<and>
   sanitize ''500'' = ''500'' \<and>
   durationSec (onChangeDuration ''a'' (sanitize ''500'') [item0] ! 0) = Finite 120 \<and>
   sanitize ''abc'' = [] \<and>
   durationSec (onChangeDuration ''a'' (sanitize ''abc'') [item0] ! 0) = Finite (1 / 5) \<and>
   durationSec (onChangeDuration ''a'' (sanitize ''0.1'') [item0] ! 0) = Finite (1 / 5) \<and>
   num_le (Finite (1 / 5)) (Finite 120) \<and> num_le (Finite 120) (Finite 120) \<and>
   PosInfinity \<noteq> NaN \<and> clamp PosInfinity (Finite (1 / 5)) (Finite 120) = Finite 120"
  using duration_in_range[of "''500''" "[item0]" "''a''" PosInfinity]
    duration_in_range[of "''abc''" "[item0]" "''a''" PosInfinity]
    duration_in_range[of "''0.1''" "[item0]" "''a''" PosInfinity]
  by (simp add: item0_def clamp_def Math_max_def Math_min_def sanitize_def Number_value_def
      fpn_500 fpn_abc fpn_tenth)

lemma lastIndexOf_from_absent:
  "c \<notin> set xs \<Longrightarrow> lastIndexOf_from c xs i acc = acc"
  by (induction xs arbitrary: i acc) auto

lemma lastIndexOf_from_last:
  "c \<notin> set suf \<Longrightarrow> lastIndexOf_from c (pre @ c # suf) i acc = i + int (length pre)"
  by (induction pre arbitrary: i acc) (simp_all add: lastIndexOf_from_absent)

lemma extOf_absent: "CHR ''.'' \<notin> set nm \<Longrightarrow> extOf nm = []"
  by (simp add: extOf_def lastIndexOf_def lastIndexOf_from_absent)

lemma extOf_last: "CHR ''.'' \<notin> set suf \<Longrightarrow> extOf (pre @ CHR ''.'' # suf) = CHR ''.'' # suf"
  by (simp add: extOf_def lastIndexOf_def lastIndexOf_from_last)

text \<open>
  Claim C10. The staged input name of item \<open>i\<close> is \<^verbatim>\<open>input_\<close>, the digits of \<open>i\<close> and
  \<open>extOf\<close> of the file name. \<open>extOf\<close> returns the part of the name from its last dot on
  when the name has a dot, and the empty string otherwise; so a file name without a dot is
  staged as \<^verbatim>\<open>input_\<close> and the digits of \<open>i\<close>, with no extension.
\<close>
theorem inputName_extOf:
  "inputName i it = ''input_'' @ String_nat i @ extOf (name (file_item it)) \<and>
   (CHR ''.'' \<notin> set suf \<longrightarrow> extOf (pre @ CHR ''.'' # suf) = CHR ''.'' # suf) \<and>
   (CHR ''.'' \<in> set nm \<longrightarrow>
      (\<exists>pre suf. nm = pre @ CHR ''.'' # suf \<and> CHR ''.'' \<notin> set suf \<and> extOf nm = CHR ''.'' # suf)) \<and>
   (CHR ''.'' \<notin> set nm \<longrightarrow> extOf nm = []) \<and>
   (CHR ''.'' \<notin> set (name (file_item it)) \<longrightarrow> inputName i it = ''input_'' @ String_nat i)"
proof -
  have "\<exists>pre suf. nm = pre @ CHR ''.'' # suf \<and> CHR ''.'' \<notin> set suf \<and> extOf nm = CHR ''.'' # suf"
    if "CHR ''.'' \<in> set nm"
  proof -
    from split_list_last[OF that] obtain pre suf
      where "nm = pre @ CHR ''.'' # suf" "CHR ''.'' \<notin> set suf" by blast
    then show ?thesis using extOf_last by blast
  qed
  then show ?thesis
    by (simp add: inputName_def extOf_absent extOf_last)
qed

theorem inputName_extOf_witness:
  "CHR ''.'' \<notin> set ''png'' \<and> extOf ''photo.final.png'' = ''.png'' \<and>
   CHR ''.'' \<in> set (name (file_item item0)) \<and> inputName 0 item0 = ''input_0.png'' \<and>
   CHR ''.'' \<notin> set (name (file_item item1)) \<and> inputName 1 item1 = ''input_1''"
proof -
  have d: "String_nat 0 = ''0''" "String_nat 1 = ''1''"
    by (simp_all add: String_nat.simps digit_char_def)
  have n: "name (file_item item0) = ''photo.final'' @ CHR ''.'' # ''png''"
    "name (file_item item1) = ''README''"
    by (simp_all add: item0_def item1_def)
  have p: "CHR ''.'' \<notin> set ''png''" "CHR ''.'' \<notin> set ''README''"
    by simp_all
  from inputName_extOf[of 0 item0 "''png''" "''photo.final''" "''README''"] p
  have a: "extOf (''photo.final'' @ CHR ''.'' # ''png'') = ''.png''"
    and b: "inputName 0 item0 = ''input_'' @ String_nat 0 @ extOf (name (file_item item0))"
    by blast+
  from inputName_extOf[of 1 item1 "''png''" "''photo.final''" "''README''"] p n(2)
  have c: "inputName 1 item1 = ''input_'' @ String_nat 1"
    by simp
  from a b c d n show ?thesis
    by simp
qed

section \<open>The filter expression and the button\<close>

lemma S40: "String_nat 40 = ''40''"
  by (simp add: String_nat.simps digit_char_def)
lemma S90: "String_nat 90 = ''90''"
  by (simp add: String_nat.simps digit_char_def)

lemma hasCaption_iff: "hasCaption c f \<longleftrightarrow> trim c \<noteq> [] \<and> f \<noteq> []"
  by (simp add: hasCaption_def)

text \<open>
  Claim C6. The filter expression of an item differs from the scale-and-pad expression if
  and only if the caption is not empty after trimming and the font path is not empty. In
  that case it is the scale-and-pad expression followed by a \<^verbatim>\<open>drawtext\<close> stage with the
  font file, the escaped caption, \<^verbatim>\<open>fontcolor=white\<close>, the font size
  \<open>round (min w h / 18)\<close>, which is \<open>(min w h + 9) div 18\<close>, \<^verbatim>\<open>x=(w-text_w)/2\<close>, the
  vertical position \<^verbatim>\<open>h-(\<close>\<open>round (h / 8)\<close>\<^verbatim>\<open>)\<close> with \<open>round (h / 8) = (h + 4) div 8\<close>,
  and a shadow offset of 2 in both directions.
\<close>
theorem drawtext_stage:
  "(vf w h c f \<noteq> scalePad w h) = (trim c \<noteq> [] \<and> f \<noteq> []) \<and>
   (trim c \<noteq> [] \<and> f \<noteq> [] \<longrightarrow>
      vf w h c f =
        scalePad w h @ '',drawtext=fontfile='' @ f @ '':text='' @ [quote] @ escapeDrawtext c
          @ [quote] @ '':fontcolor=white:fontsize='' @ String_nat ((min w h + 9) div 18)
          @ '':x=(w-text_w)/2:y=h-('' @ String_nat ((h + 4) div 8)
          @ ''):shadowcolor=0x000000@0.5:shadowx=2:shadowy=2'')"
  by (simp add: vf_def hasCaption_iff Math_round_18 Math_round_8 String_int_nat)

lemma trim_Hi: "trim ''Hi'' = ''Hi''"
  by (simp add: trim_def isWhiteSpace_def)

theorem drawtext_stage_witness:
  "trim ''Hi'' \<noteq> [] \<and> ''font.ttf'' \<noteq> [] \<and>
   vf 1280 720 ''Hi'' ''font.ttf'' =
     scalePad 1280 720 @ '',drawtext=fontfile=font.ttf:text='' @ [quote] @ ''Hi'' @ [quote]
       @ '':fontcolor=white:fontsize=40:x=(w-text_w)/2:y=h-(90):shadowcolor=0x000000@0.5:shadowx=2:shadowy=2'' \<and>
   vf 1280 720 ''   '' ''font.ttf'' = scalePad 1280 720 \<and>
   vf 1280 720 ''Hi'' [] = scalePad 1280 720"
  using drawtext_stage[of 1280 720 "''Hi''" "''font.ttf''"]
    drawtext_stage[of 1280 720 "''   ''" "''font.ttf''"]
    drawtext_stage[of 1280 720 "''Hi''" "[]"]
  by (simp add: trim_Hi S40 S90 escapeDrawtext_Cons escapeDrawtext_Nil colon_def quote_def backslash_def trim_def isWhiteSpace_def)

text \<open>
  Claim C2. The scaled image is to fit within the target width and the target height. The
  scale stage of the expression, its text up to the first comma, is
  \<^verbatim>\<open>scale=W:-2:force_original_aspect_ratio=decrease\<close> for the target width \<open>W\<close>: the
  target height does not occur in it, and the stage is the same for every target height.
  The height of the scaled image follows from the width and the source's aspect ratio
  alone. At 1280 by 720 the expression is the one below.
\<close>
theorem scale_stage_ignores_height:
  "takeWhile (\<lambda>c. c \<noteq> CHR '','') (scalePad w h) =
     ''scale='' @ String_nat w @ '':-2:force_original_aspect_ratio=decrease'' \<and>
   takeWhile (\<lambda>c. c \<noteq> CHR '','') (scalePad w h) = takeWhile (\<lambda>c. c \<noteq> CHR '','') (scalePad w h') \<and>
   scalePad 1280 720 =
     ''scale=1280:-2:force_original_aspect_ratio=decrease,pad=1280:720:(ow-iw)/2:(oh-ih)/2:color=black,setsar=1''"
  by (simp add: takeWhile_scale) (simp add: scalePad_def S1280 S720)

text \<open>
  Claim C4. With an empty item list the button is disabled: a click leaves the state as it
  is and makes no call at all, so the engine is not loaded, no file is written or deleted
  and no command is executed.
\<close>
theorem empty_items_no_call:
  assumes "items st = []"
  shows "onClick P st = (st, [])"
  using assms by (simp add: onClick_def canCreate_def)

section \<open>The calls of a run, stage by stage\<close>

lemma execs_Nil: "execs [] = []"
  and execs_append: "execs (tr @ tr') = execs tr @ execs tr'"
  and execs_single: "execs [(c, b)] = exec_args c"
  by (simp_all add: execs_def)

lemma reads_Nil: "reads [] = []"
  and reads_append: "reads (tr @ tr') = reads tr @ reads tr'"
  and reads_single: "reads [(c, b)] = read_name c"
  by (simp_all add: reads_def)

lemma failures_Nil: "failures [] = []"
  and failures_append: "failures (tr @ tr') = failures tr @ failures tr'"
  and failures_single: "failures [(c, b)] = (if b then [] else [c])"
  by (simp_all add: failures_def)

lemmas trace_simps = execs_Nil execs_append execs_single reads_Nil reads_append reads_single
  failures_Nil failures_append failures_single

lemmas call_defs = call_toBlobURL_def call_load_def call_listDir_def call_deleteFile_def
  call_fetchFile_def call_writeFile_def call_exec_def call_readFile_def

named_theorems call_simps

lemma call_execs [call_simps]:
  "execs (snd (call_toBlobURL P u tr)) = execs tr"
  "execs (snd (call_load P tr)) = execs tr"
  "execs (snd (call_listDir P d tr)) = execs tr"
  "execs (snd (call_deleteFile P f tr)) = execs tr"
  "execs (snd (call_fetchFile P s tr)) = execs tr"
  "execs (snd (call_writeFile P f b tr)) = execs tr"
  "execs (snd (call_exec P a tr)) = execs tr @ [a]"
  "execs (snd (call_readFile P f tr)) = execs tr"
  by (simp_all add: call_defs Let_def trace_simps)

lemma call_reads [call_simps]:
  "reads (snd (call_toBlobURL P u tr)) = reads tr"
  "reads (snd (call_load P tr)) = reads tr"
  "reads (snd (call_listDir P d tr)) = reads tr"
  "reads (snd (call_deleteFile P f tr)) = reads tr"
  "reads (snd (call_fetchFile P s tr)) = reads tr"
  "reads (snd (call_writeFile P f b tr)) = reads tr"
  "reads (snd (call_exec P a tr)) = reads tr"
  "reads (snd (call_readFile P f tr)) = reads tr @ [f]"
  by (simp_all add: call_defs Let_def trace_simps)

lemma call_failures [call_simps]:
  "failures (snd (call_toBlobURL P u tr)) =
     failures tr @ (if fst (call_toBlobURL P u tr) then [] else [ToBlobURL u])"
  "failures (snd (call_load P tr)) = failures tr @ (if fst (call_load P tr) then [] else [Load])"
  "failures (snd (call_listDir P d tr)) =
     failures tr @ (if fst (call_listDir P d tr) = None then [ListDir d] else [])"
  "failures (snd (call_deleteFile P f tr)) =
     failures tr @ (if fst (call_deleteFile P f tr) then [] else [DeleteFile f])"
  "failures (snd (call_fetchFile P s tr)) =
     failures tr @ (if fst (call_fetchFile P s tr) = None then [FetchFile s] else [])"
  "failures (snd (call_writeFile P f b tr)) =
     failures tr @ (if fst (call_writeFile P f b tr) then [] else [WriteFile f b])"
  "failures (snd (call_exec P a tr)) =
     failures tr @ (if fst (call_exec P a tr) then [] else [Exec a])"
  "failures (snd (call_readFile P f tr)) =
     failures tr @ (if fst (call_readFile P f tr) = None then [ReadFile f] else [])"
  by (simp_all add: call_defs Let_def trace_simps)

lemma call_readFile_last [call_simps]:
  "butlast (snd (call_readFile P f tr)) = tr"
  "fst (call_readFile P f tr) = readFile P tr f"
  by (simp_all add: call_readFile_def Let_def)

subsection \<open>Loading the engine\<close>

lemma ensureFFmpeg_execs: "execs (snd (ensureFFmpeg P cur tr)) = execs tr"
  by (simp add: ensureFFmpeg_def Let_def case_prod_beta call_simps)

lemma ensureFFmpeg_reads: "reads (snd (ensureFFmpeg P cur tr)) = reads tr"
  by (simp add: ensureFFmpeg_def Let_def case_prod_beta call_simps)

lemma ensureFFmpeg_failures:
  "\<not> setup_call c \<Longrightarrow>
     c \<in> set (failures (snd (ensureFFmpeg P cur tr))) \<longleftrightarrow> c \<in> set (failures tr)"
  by (auto simp add: ensureFFmpeg_def Let_def case_prod_beta call_simps)

lemma ensureFFmpeg_threw:
  "\<not> fst (ensureFFmpeg P cur tr) \<Longrightarrow>
     \<exists>c \<in> set (failures (snd (ensureFFmpeg P cur tr))). \<not> font_fetch c"
  by (auto simp add: ensureFFmpeg_def Let_def case_prod_beta call_simps split: if_splits)

subsection \<open>Clearing the files\<close>

lemma deleteAll_execs: "execs (deleteAll P fs tr) = execs tr"
  by (induction fs arbitrary: tr) (simp_all add: call_simps)

lemma deleteAll_reads: "reads (deleteAll P fs tr) = reads tr"
  by (induction fs arbitrary: tr) (simp_all add: call_simps)

lemma deleteAll_failures:
  "\<not> setup_call c \<Longrightarrow> c \<in> set (failures (deleteAll P fs tr)) \<longleftrightarrow> c \<in> set (failures tr)"
proof (induction fs arbitrary: tr)
  case Nil
  show ?case by simp
next
  case (Cons f fs)
  have "c \<noteq> DeleteFile (''/'' @ f)"
    using Cons.prems by auto
  then show ?case
    using Cons.IH[OF Cons.prems] by (simp add: call_simps)
qed

lemma resetFS_unfold:
  "resetFS P tr =
     (let L = call_listDir P ''/'' tr in
      if fst L = None then snd L else deleteAll P (the (fst L)) (snd L))"
  by (simp add: resetFS_def Let_def case_prod_beta split: option.split)

lemma resetFS_execs: "execs (resetFS P tr) = execs tr"
  by (simp add: resetFS_unfold Let_def call_simps deleteAll_execs)

lemma resetFS_reads: "reads (resetFS P tr) = reads tr"
  by (simp add: resetFS_unfold Let_def call_simps deleteAll_reads)

lemma resetFS_failures:
  "\<not> setup_call c \<Longrightarrow> c \<in> set (failures (resetFS P tr)) \<longleftrightarrow> c \<in> set (failures tr)"
  by (auto simp add: resetFS_unfold Let_def call_simps deleteAll_failures)

subsection \<open>Staging the font\<close>

lemma writeFont_unfold:
  "writeFont P u tr =
     (let F = call_fetchFile P (Url u) tr in
      if fst F = None then ([], snd F)
      else
        let W = call_writeFile P ''font.ttf'' (the (fst F)) (snd F) in
        if fst W then (''font.ttf'', snd W) else ([], snd W))"
  by (simp add: writeFont_def Let_def case_prod_beta split: option.split)

lemma writeFont_execs: "execs (snd (writeFont P u tr)) = execs tr"
  by (simp add: writeFont_unfold Let_def call_simps)

lemma writeFont_reads: "reads (snd (writeFont P u tr)) = reads tr"
  by (simp add: writeFont_unfold Let_def call_simps)

lemma writeFont_failures_Exec:
  "Exec a \<in> set (failures (snd (writeFont P u tr))) \<longleftrightarrow> Exec a \<in> set (failures tr)"
  by (simp add: writeFont_unfold Let_def call_simps)

lemma writeFont_unavailable:
  "FetchFile (Url u') \<in> set (failures (snd (writeFont P u tr))) \<Longrightarrow>
   FetchFile (Url u') \<notin> set (failures tr) \<Longrightarrow> fst (writeFont P u tr) = []"
  by (simp add: writeFont_unfold Let_def call_simps split: if_splits)

lemma writeFont_fontPath: "fst (writeFont P u tr) \<in> {[], ''font.ttf''}"
  by (simp add: writeFont_unfold Let_def)

subsection \<open>Rendering the items\<close>

lemma renderLoop_Cons:
  "renderLoop P w h r fp i (it # rest) pn tr =
     (let F = call_fetchFile P (FromFile (file_item it)) tr in
      if fst F = None then (None, snd F)
      else
        let W = call_writeFile P (inputName i it) (the (fst F)) (snd F) in
        if \<not> fst W then (None, snd W)
        else
          let E = call_exec P (''-y'' # args P w h r fp i it) (snd W) in
          if \<not> fst E then (None, snd E)
          else renderLoop P w h r fp (Suc i) rest (pn @ [partName i]) (snd E))"
  by (simp add: Let_def case_prod_beta split: option.split)

lemma length_args: "length (args P w h r fp i it) = 18"
  by (simp add: args_def)

lemma renderLoop_reads: "reads (snd (renderLoop P w h r fp i its pn tr)) = reads tr"
  by (induction its arbitrary: i pn tr)
     (simp_all add: renderLoop_Cons Let_def call_simps del: renderLoop.simps(2))

lemma renderLoop_failures:
  "\<not> item_call c \<Longrightarrow>
     c \<in> set (failures (snd (renderLoop P w h r fp i its pn tr))) \<longleftrightarrow> c \<in> set (failures tr)"
  by (induction its arbitrary: i pn tr)
     (auto simp add: renderLoop_Cons Let_def call_simps length_args simp del: renderLoop.simps(2))

lemma renderLoop_threw:
  "fst (renderLoop P w h r fp i its pn tr) = None \<Longrightarrow>
     \<exists>c \<in> set (failures (snd (renderLoop P w h r fp i its pn tr))). \<not> font_fetch c"
  by (induction its arbitrary: i pn tr)
     (auto simp add: renderLoop_Cons Let_def call_simps simp del: renderLoop.simps(2)
        split: if_splits)

lemma renderLoop_execs:
  "\<exists>m \<le> length its.
     execs (snd (renderLoop P w h r fp i its pn tr)) =
       execs tr @ map (\<lambda>k. ''-y'' # args P w h r fp (i + k) (its ! k)) [0..<m] \<and>
     (fst (renderLoop P w h r fp i its pn tr) \<noteq> None \<longrightarrow> m = length its)"
proof (induction its arbitrary: i pn tr)
  case Nil
  show ?case by simp
next
  case (Cons it rest)
  let ?F = "call_fetchFile P (FromFile (file_item it)) tr"
  let ?W = "call_writeFile P (inputName i it) (the (fst ?F)) (snd ?F)"
  let ?E = "call_exec P (''-y'' # args P w h r fp i it) (snd ?W)"
  consider (early) "fst ?F = None \<or> \<not> fst ?W"
    | (exec) "fst ?F \<noteq> None" "fst ?W" "\<not> fst ?E"
    | (on) "fst ?F \<noteq> None" "fst ?W" "fst ?E"
    by blast
  then show ?case
  proof cases
    case early
    then show ?thesis
      by (intro exI[of _ 0]) (auto simp add: renderLoop_Cons Let_def call_simps simp del: renderLoop.simps(2))
  next
    case exec
    then show ?thesis
      by (intro exI[of _ 1]) (simp add: renderLoop_Cons Let_def call_simps del: renderLoop.simps(2))
  next
    case on
    from Cons.IH[of "Suc i" "pn @ [partName i]" "snd ?E"] obtain m where
      m: "m \<le> length rest"
      "execs (snd (renderLoop P w h r fp (Suc i) rest (pn @ [partName i]) (snd ?E))) =
         execs (snd ?E) @ map (\<lambda>k. ''-y'' # args P w h r fp (Suc i + k) (rest ! k)) [0..<m]"
      "fst (renderLoop P w h r fp (Suc i) rest (pn @ [partName i]) (snd ?E)) \<noteq> None \<longrightarrow>
         m = length rest"
      by blast
    have "map (\<lambda>k. ''-y'' # args P w h r fp (i + k) ((it # rest) ! k)) [0..<Suc m] =
          (''-y'' # args P w h r fp i it)
            # map (\<lambda>k. ''-y'' # args P w h r fp (Suc i + k) (rest ! k)) [0..<m]"
      by (simp add: map_upt_Suc del: upt_Suc)
    with on m show ?thesis
      by (intro exI[of _ "Suc m"])
         (simp add: renderLoop_Cons Let_def call_simps del: upt_Suc renderLoop.simps(2))
  qed
qed

lemma renderLoop_execs_done:
  assumes "fst (renderLoop P w h r fp i its pn tr) \<noteq> None"
  shows "execs (snd (renderLoop P w h r fp i its pn tr)) =
           execs tr @ map (\<lambda>k. ''-y'' # args P w h r fp (i + k) (its ! k)) [0..<length its]"
proof -
  from renderLoop_execs[of its P w h r fp i pn tr] obtain m where
    "execs (snd (renderLoop P w h r fp i its pn tr)) =
       execs tr @ map (\<lambda>k. ''-y'' # args P w h r fp (i + k) (its ! k)) [0..<m]"
    "fst (renderLoop P w h r fp i its pn tr) \<noteq> None \<longrightarrow> m = length its"
    by blast
  with assms show ?thesis by simp
qed

lemma renderLoop_execs_mem:
  assumes "a \<in> set (execs (snd (renderLoop P w h r fp i its pn tr)))"
  shows "a \<in> set (execs tr) \<or> (\<exists>k < length its. a = ''-y'' # args P w h r fp (i + k) (its ! k))"
proof -
  from renderLoop_execs[of its P w h r fp i pn tr] obtain m where
    m: "m \<le> length its"
    "execs (snd (renderLoop P w h r fp i its pn tr)) =
       execs tr @ map (\<lambda>k. ''-y'' # args P w h r fp (i + k) (its ! k)) [0..<m]"
    by blast
  from assms m(2) have
    "a \<in> set (execs tr) \<or> a \<in> (\<lambda>k. ''-y'' # args P w h r fp (i + k) (its ! k)) ` {0..<m}"
    by simp
  then show ?thesis
  proof
    assume "a \<in> set (execs tr)"
    then show ?thesis by simp
  next
    assume "a \<in> (\<lambda>k. ''-y'' # args P w h r fp (i + k) (its ! k)) ` {0..<m}"
    then obtain k where "k < m" "a = ''-y'' # args P w h r fp (i + k) (its ! k)"
      by auto
    with m(1) have "k < length its \<and> a = ''-y'' # args P w h r fp (i + k) (its ! k)"
      by simp
    then show ?thesis by blast
  qed
qed

subsection \<open>Muxing the audio\<close>

lemma muxAudio_None: "muxAudio P None tr = (Some ''output_video.mp4'', tr)"
  by (simp add: muxAudio_def)

lemma muxAudio_Some:
  "muxAudio P (Some f) tr =
     (let F = call_fetchFile P (FromFile f) tr in
      if fst F = None then (None, snd F)
      else
        let W = call_writeFile P ''audio_in'' (the (fst F)) (snd F) in
        if \<not> fst W then (None, snd W)
        else
          let E = call_exec P (muxArgs ''final.mp4'') (snd W) in
          (Some (if fst E then ''final.mp4'' else ''output_video.mp4''), snd E))"
  by (simp add: muxAudio_def Let_def case_prod_beta split: option.split)

lemma muxAudio_reads: "reads (snd (muxAudio P a tr)) = reads tr"
  by (cases a) (simp_all add: muxAudio_None muxAudio_Some Let_def call_simps)

lemma muxAudio_execs_done:
  "fst (muxAudio P a tr) \<noteq> None \<Longrightarrow>
     execs (snd (muxAudio P a tr)) =
       execs tr @ (if a = None then [] else [muxArgs ''final.mp4''])"
  by (cases a) (simp_all add: muxAudio_None muxAudio_Some Let_def call_simps split: if_splits)

lemma muxAudio_execs_mem:
  "x \<in> set (execs (snd (muxAudio P a tr))) \<Longrightarrow> x \<in> set (execs tr) \<or> x = muxArgs ''final.mp4''"
  by (cases a) (auto simp add: muxAudio_None muxAudio_Some Let_def call_simps split: if_splits)

lemma muxAudio_failures_font:
  "FetchFile (Url u) \<in> set (failures (snd (muxAudio P a tr))) \<longleftrightarrow>
     FetchFile (Url u) \<in> set (failures tr)"
  by (cases a) (simp_all add: muxAudio_None muxAudio_Some Let_def call_simps)

lemma muxAudio_threw:
  "fst (muxAudio P a tr) = None \<Longrightarrow>
     \<exists>c \<in> set (failures (snd (muxAudio P a tr))). \<not> font_fetch c"
  by (cases a) (auto simp add: muxAudio_None muxAudio_Some Let_def call_simps split: if_splits)

lemma muxAudio_fallback:
  "Exec (muxArgs ''final.mp4'') \<in> set (failures (snd (muxAudio P a tr))) \<Longrightarrow>
   Exec (muxArgs ''final.mp4'') \<notin> set (failures tr) \<Longrightarrow>
   fst (muxAudio P a tr) = Some ''output_video.mp4''"
  by (cases a) (auto simp add: muxAudio_None muxAudio_Some Let_def call_simps split: if_splits)

lemma tryBlock_unfold:
  "tryBlock P st =
     (let E = ensureFFmpeg P (ffmpegRef st) [] in
      if \<not> fst E then (None, False, snd E)
      else
        let F = writeFont P (fontUrl st) (resetFS P (snd E));
            R = renderLoop P (resolution_w st) (resolution_h st) (fps st) (fst F) 0 (items st) []
                  (snd F) in
        if fst R = None then (None, True, snd R)
        else
          let W = call_writeFile P ''concat_list.txt'' (encode (listTxt (the (fst R)))) (snd R) in
          if \<not> fst W then (None, True, snd W)
          else
            let C = call_exec P concatArgs (snd W) in
            if \<not> fst C then (None, True, snd C)
            else
              let M = muxAudio P (audioFile st) (snd C) in
              if fst M = None then (None, True, snd M)
              else
                let D = call_readFile P (the (fst M)) (snd M) in (fst D, True, snd D))"
  by (simp add: tryBlock_def Let_def case_prod_beta split: option.split)

lemma tryBlock_frame:
  "tryBlock P (st\<lparr>isBusy := a, message := b, progress := c, videoUrl := d\<rparr>) = tryBlock P st"
  by (simp add: tryBlock_unfold Let_def cong: if_cong)

lemma createVideo_trace: "snd (createVideo P st) = snd (snd (tryBlock P st))"
  by (simp add: createVideo_def Let_def case_prod_beta tryBlock_frame)

lemma createVideo_message:
  "message (fst (createVideo P st)) =
     (if fst (tryBlock P st) = None then errorMessage else doneMessage)"
  by (simp add: createVideo_def Let_def case_prod_beta tryBlock_frame split: option.split)

lemma createVideo_videoUrl:
  "videoUrl (fst (createVideo P st)) = map_option ObjectURL (fst (tryBlock P st))"
  by (simp add: createVideo_def Let_def case_prod_beta tryBlock_frame split: option.split)

lemma createVideo_isBusy: "\<not> isBusy (fst (createVideo P st))"
  by (simp add: createVideo_def Let_def case_prod_beta)

lemma concatArgs_not_mux: "concatArgs \<noteq> muxArgs f"
  by (simp add: concatArgs_def muxArgs_def)

lemma not_item_call_mux: "\<not> item_call (Exec (muxArgs f))"
  by (simp add: muxArgs_def)

lemma muxAudio_execs_threw:
  "fst (muxAudio P a tr) = None \<Longrightarrow> execs (snd (muxAudio P a tr)) = execs tr"
  by (cases a) (simp_all add: muxAudio_None muxAudio_Some Let_def call_simps split: if_splits)

lemma muxAudio_finalName:
  "fst (muxAudio P a tr) \<noteq> None \<Longrightarrow> Exec (muxArgs ''final.mp4'') \<notin> set (failures tr) \<Longrightarrow>
     the (fst (muxAudio P a tr)) =
       (if a \<noteq> None \<and> Exec (muxArgs ''final.mp4'') \<notin> set (failures (snd (muxAudio P a tr)))
        then ''final.mp4'' else ''output_video.mp4'')"
  by (cases a) (simp_all add: muxAudio_None muxAudio_Some Let_def call_simps split: if_splits)

lemma tryBlock_outcome:
  fixes P st
  defines "tr \<equiv> snd (snd (tryBlock P st))"
    and "res \<equiv> fst (tryBlock P st)"
    and "render \<equiv> \<lambda>fp k. ''-y'' # args P (resolution_w st) (resolution_h st) (fps st) fp k (items st ! k)"
  shows "\<exists>fp. fp \<in> {[], ''font.ttf''} \<and>
           (\<forall>u. FetchFile (Url u) \<in> set (failures tr) \<longrightarrow> fp = []) \<and>
           (res = None \<and> reads tr = [] \<and> (\<exists>c \<in> set (failures tr). \<not> font_fetch c) \<and>
              Exec (muxArgs ''final.mp4'') \<notin> set (failures tr) \<and>
              (\<forall>a \<in> set (execs tr). a = concatArgs \<or> (\<exists>k < length (items st). a = render fp k))
            \<or> (\<exists>f. reads tr = [f] \<and> res = readFile P (butlast tr) f \<and>
                  (res = None \<longrightarrow> ReadFile f \<in> set (failures tr)) \<and>
                  execs tr = map (render fp) [0..<length (items st)]
                    @ concatArgs # (if audioFile st = None then [] else [muxArgs ''final.mp4'']) \<and>
                  f = (if audioFile st \<noteq> None \<and> Exec (muxArgs ''final.mp4'') \<notin> set (failures tr)
                       then ''final.mp4'' else ''output_video.mp4'')))"
proof -
  define E where "E = ensureFFmpeg P (ffmpegRef st) []"
  define F where "F = writeFont P (fontUrl st) (resetFS P (snd E))"
  define R where "R = renderLoop P (resolution_w st) (resolution_h st) (fps st) (fst F) 0
    (items st) [] (snd F)"
  define W where "W = call_writeFile P ''concat_list.txt'' (encode (listTxt (the (fst R)))) (snd R)"
  define C where "C = call_exec P concatArgs (snd W)"
  define M where "M = muxAudio P (audioFile st) (snd C)"
  define D where "D = call_readFile P (the (fst M)) (snd M)"
  let ?mux = "Exec (muxArgs ''final.mp4'')"
  have tb: "tryBlock P st =
      (if \<not> fst E then (None, False, snd E)
       else if fst R = None then (None, True, snd R)
       else if \<not> fst W then (None, True, snd W)
       else if \<not> fst C then (None, True, snd C)
       else if fst M = None then (None, True, snd M)
       else (fst D, True, snd D))"
    by (simp add: tryBlock_unfold Let_def E_def F_def R_def W_def C_def M_def D_def)
  have fp: "fst F \<in> {[], ''font.ttf''}"
    unfolding F_def by (rule writeFont_fontPath)
  \<comment> \<open>the files read\<close>
  have rE: "reads (snd E) = []"
    by (simp add: E_def ensureFFmpeg_reads reads_Nil)
  have rF: "reads (snd F) = []"
    by (simp add: F_def writeFont_reads resetFS_reads rE)
  have rR: "reads (snd R) = []"
    by (simp add: R_def renderLoop_reads rF)
  have rW: "reads (snd W) = []"
    by (simp add: W_def call_simps rR)
  have rC: "reads (snd C) = []"
    by (simp add: C_def call_simps rW)
  have rM: "reads (snd M) = []"
    by (simp add: M_def muxAudio_reads rC)
  have rD: "reads (snd D) = [the (fst M)]"
    by (simp add: D_def call_simps rM)
  \<comment> \<open>the commands executed\<close>
  have xF: "execs (snd F) = []"
    by (simp add: F_def E_def writeFont_execs resetFS_execs ensureFFmpeg_execs execs_Nil)
  have xE: "execs (snd E) = []"
    by (simp add: E_def ensureFFmpeg_execs execs_Nil)
  have xR: "a \<in> set (execs (snd R)) \<Longrightarrow> \<exists>k < length (items st). a = render (fst F) k" for a
    using renderLoop_execs_mem[of a P "resolution_w st" "resolution_h st" "fps st" "fst F" 0
        "items st" "[]" "snd F"]
    by (simp add: R_def xF render_def)
  have xR_done: "execs (snd R) = map (render (fst F)) [0..<length (items st)]" if "fst R \<noteq> None"
    using renderLoop_execs_done[of P "resolution_w st" "resolution_h st" "fps st" "fst F" 0
        "items st" "[]" "snd F"] that
    by (simp add: R_def xF render_def)
  have xW: "execs (snd W) = execs (snd R)"
    by (simp add: W_def call_simps)
  have xC: "execs (snd C) = execs (snd R) @ [concatArgs]"
    by (simp add: C_def call_simps xW)
  have xM: "a \<in> set (execs (snd M)) \<Longrightarrow> a \<in> set (execs (snd C)) \<or> a = muxArgs ''final.mp4''" for a
    unfolding M_def by (rule muxAudio_execs_mem)
  have xM_done: "execs (snd M) =
      execs (snd C) @ (if audioFile st = None then [] else [muxArgs ''final.mp4''])"
    if "fst M \<noteq> None"
    using that unfolding M_def by (rule muxAudio_execs_done)
  have xD: "execs (snd D) = execs (snd M)"
    by (simp add: D_def call_simps)
  \<comment> \<open>the font fetch among the failures\<close>
  have uE: "FetchFile (Url u) \<notin> set (failures (snd E))" for u
    by (simp add: E_def ensureFFmpeg_failures failures_Nil)
  have uF: "FetchFile (Url u) \<in> set (failures (snd F)) \<Longrightarrow> fst F = []" for u
    unfolding F_def
    by (rule writeFont_unavailable[of u]) (simp_all add: resetFS_failures uE)
  have uR: "FetchFile (Url u) \<in> set (failures (snd R)) \<longleftrightarrow> FetchFile (Url u) \<in> set (failures (snd F))" for u
    by (simp add: R_def renderLoop_failures)
  have uW: "FetchFile (Url u) \<in> set (failures (snd W)) \<longleftrightarrow> FetchFile (Url u) \<in> set (failures (snd F))" for u
    by (simp add: W_def call_simps uR)
  have uC: "FetchFile (Url u) \<in> set (failures (snd C)) \<longleftrightarrow> FetchFile (Url u) \<in> set (failures (snd F))" for u
    by (simp add: C_def call_simps uW)
  have uM: "FetchFile (Url u) \<in> set (failures (snd M)) \<longleftrightarrow> FetchFile (Url u) \<in> set (failures (snd F))" for u
    by (simp add: M_def muxAudio_failures_font uC)
  have uD: "FetchFile (Url u) \<in> set (failures (snd D)) \<longleftrightarrow> FetchFile (Url u) \<in> set (failures (snd F))" for u
    by (simp add: D_def call_simps uM)
  \<comment> \<open>the mux command among the failures\<close>
  have mE: "?mux \<notin> set (failures (snd E))"
    by (simp add: E_def ensureFFmpeg_failures failures_Nil)
  have mF: "?mux \<notin> set (failures (snd F))"
    by (simp add: F_def writeFont_failures_Exec resetFS_failures mE)
  have mR: "?mux \<notin> set (failures (snd R))"
    using renderLoop_failures[OF not_item_call_mux] mF by (simp add: R_def)
  have mW: "?mux \<notin> set (failures (snd W))"
    by (simp add: W_def call_simps mR)
  have mC: "?mux \<notin> set (failures (snd C))"
    by (simp add: C_def call_simps mW concatArgs_not_mux concatArgs_not_mux[symmetric])
  have mD: "?mux \<in> set (failures (snd D)) \<longleftrightarrow> ?mux \<in> set (failures (snd M))"
    by (simp add: D_def call_simps)
  \<comment> \<open>a call that threw and was not caught\<close>
  have tE: "\<not> fst E \<Longrightarrow> \<exists>c \<in> set (failures (snd E)). \<not> font_fetch c"
    unfolding E_def by (rule ensureFFmpeg_threw)
  have tR: "fst R = None \<Longrightarrow> \<exists>c \<in> set (failures (snd R)). \<not> font_fetch c"
    unfolding R_def by (rule renderLoop_threw)
  have tW: "\<not> fst W \<Longrightarrow> \<exists>c \<in> set (failures (snd W)). \<not> font_fetch c"
    by (simp add: W_def call_simps)
  have tC: "\<not> fst C \<Longrightarrow> \<exists>c \<in> set (failures (snd C)). \<not> font_fetch c"
    by (simp add: C_def call_simps)
  have tM: "fst M = None \<Longrightarrow> \<exists>c \<in> set (failures (snd M)). \<not> font_fetch c"
    unfolding M_def by (rule muxAudio_threw)
  have mM: "fst M = None \<Longrightarrow> ?mux \<notin> set (failures (snd M))"
    using muxAudio_fallback[of P "audioFile st" "snd C"] mC by (auto simp add: M_def)
  consider (E) "\<not> fst E"
    | (R) "fst E" "fst R = None"
    | (W) "fst E" "fst R \<noteq> None" "\<not> fst W"
    | (C) "fst E" "fst R \<noteq> None" "fst W" "\<not> fst C"
    | (M) "fst E" "fst R \<noteq> None" "fst W" "fst C" "fst M = None"
    | (D) "fst E" "fst R \<noteq> None" "fst W" "fst C" "fst M \<noteq> None"
    by blast
  then have "(\<forall>u. FetchFile (Url u) \<in> set (failures tr) \<longrightarrow> fst F = []) \<and>
           (res = None \<and> reads tr = [] \<and> (\<exists>c \<in> set (failures tr). \<not> font_fetch c) \<and>
              ?mux \<notin> set (failures tr) \<and>
              (\<forall>a \<in> set (execs tr). a = concatArgs \<or> (\<exists>k < length (items st). a = render (fst F) k))
            \<or> (\<exists>f. reads tr = [f] \<and> res = readFile P (butlast tr) f \<and>
                  (res = None \<longrightarrow> ReadFile f \<in> set (failures tr)) \<and>
                  execs tr = map (render (fst F)) [0..<length (items st)]
                    @ concatArgs # (if audioFile st = None then [] else [muxArgs ''final.mp4'']) \<and>
                  f = (if audioFile st \<noteq> None \<and> ?mux \<notin> set (failures tr)
                       then ''final.mp4'' else ''output_video.mp4'')))"
  proof cases
    case E
    then have "tryBlock P st = (None, False, snd E)" by (simp add: tb)
    then have "tr = snd E" "res = None" by (simp_all add: tr_def res_def)
    with E tE rE xE mE uE show ?thesis by simp
  next
    case R
    then have "tryBlock P st = (None, True, snd R)" by (simp add: tb)
    then have "tr = snd R" "res = None" by (simp_all add: tr_def res_def)
    with R tR rR xR mR uR uF show ?thesis by auto
  next
    case W
    then have "tryBlock P st = (None, True, snd W)" by (auto simp add: tb)
    then have "tr = snd W" "res = None" by (simp_all add: tr_def res_def)
    with W tW rW xW xR mW uW uF show ?thesis by auto
  next
    case C
    then have "tryBlock P st = (None, True, snd C)" by (auto simp add: tb)
    then have "tr = snd C" "res = None" by (simp_all add: tr_def res_def)
    with C tC rC xC xR mC uC uF show ?thesis by auto
  next
    case M
    then have "tryBlock P st = (None, True, snd M)" by (auto simp add: tb)
    then have "tr = snd M" "res = None" by (simp_all add: tr_def res_def)
    moreover have "?mux \<notin> set (failures (snd M))"
      using M mM by simp
    moreover have "execs (snd M) = execs (snd C)"
      using M unfolding M_def by (simp add: muxAudio_execs_threw)
    ultimately show ?thesis
      using M tM rM xC xR uM uF by auto
  next
    case D
    then have "tryBlock P st = (fst D, True, snd D)" by (auto simp add: tb)
    then have trD: "tr = snd D" "res = fst D" by (simp_all add: tr_def res_def)
    have final: "the (fst M) = (if audioFile st \<noteq> None \<and> ?mux \<notin> set (failures (snd M))
        then ''final.mp4'' else ''output_video.mp4'')"
      using D mC muxAudio_finalName[of P "audioFile st" "snd C"] by (simp add: M_def)
    have d1: "reads tr = [the (fst M)]" by (simp add: trD rD)
    have d2: "res = readFile P (butlast tr) (the (fst M))"
      by (simp add: trD D_def call_simps)
    have d3: "res = None \<longrightarrow> ReadFile (the (fst M)) \<in> set (failures tr)"
      by (simp add: trD D_def call_simps)
    have d4: "execs tr = map (render (fst F)) [0..<length (items st)]
        @ concatArgs # (if audioFile st = None then [] else [muxArgs ''final.mp4''])"
      using D by (simp add: trD xD xM_done xC xR_done)
    have "?mux \<in> set (failures tr) \<longleftrightarrow> ?mux \<in> set (failures (snd M))"
      by (simp add: trD mD)
    with final have d5: "the (fst M) = (if audioFile st \<noteq> None \<and> ?mux \<notin> set (failures tr)
        then ''final.mp4'' else ''output_video.mp4'')"
      by simp
    have d6: "\<forall>u. FetchFile (Url u) \<in> set (failures tr) \<longrightarrow> fst F = []"
      using uD uF by (simp add: trD)
    from d1 d2 d3 d4 d5 have "\<exists>f. reads tr = [f] \<and> res = readFile P (butlast tr) f \<and>
        (res = None \<longrightarrow> ReadFile f \<in> set (failures tr)) \<and>
        execs tr = map (render (fst F)) [0..<length (items st)]
          @ concatArgs # (if audioFile st = None then [] else [muxArgs ''final.mp4'']) \<and>
        f = (if audioFile st \<noteq> None \<and> ?mux \<notin> set (failures tr)
             then ''final.mp4'' else ''output_video.mp4'')"
      by (intro exI[of _ "the (fst M)"] conjI)
    with d6 show ?thesis by (intro conjI disjI2)
  qed
  note main = this
  show ?thesis
    by (rule exI[of _ "fst F"]) (rule conjI[OF fp main])
qed


lemma tryBlock_reached:
  assumes "reads (snd (snd (tryBlock P st))) \<noteq> []"
  shows "\<exists>fp \<in> {[], ''font.ttf''}. execs (snd (snd (tryBlock P st))) =
           map (\<lambda>k. ''-y'' # args P (resolution_w st) (resolution_h st) (fps st) fp k (items st ! k))
             [0..<length (items st)]
           @ concatArgs # (if audioFile st = None then [] else [muxArgs ''final.mp4''])"
  using tryBlock_outcome[of P st] assms by auto

lemma renderLoop_partNames:
  "fst (renderLoop P w h r fp i its pn tr) = Some pn' \<Longrightarrow>
     pn' = pn @ map partName [i..<i + length its]"
proof (induction its arbitrary: i pn tr)
  case Nil
  then show ?case by simp
next
  case (Cons it rest)
  let ?F = "call_fetchFile P (FromFile (file_item it)) tr"
  let ?W = "call_writeFile P (inputName i it) (the (fst ?F)) (snd ?F)"
  let ?E = "call_exec P (''-y'' # args P w h r fp i it) (snd ?W)"
  from Cons.prems have rest:
    "fst (renderLoop P w h r fp (Suc i) rest (pn @ [partName i]) (snd ?E)) = Some pn'"
    by (simp add: renderLoop_Cons Let_def del: renderLoop.simps(2) split: if_splits)
  have "[i..<i + length (it # rest)] = i # [Suc i..<Suc i + length rest]"
    by (simp add: upt_rec)
  with Cons.IH[OF rest] show ?case
    by simp
qed

lemma call_mono:
  "set tr \<subseteq> set (snd (call_exec P a tr))"
  "set tr \<subseteq> set (snd (call_readFile P f tr))"
  "set tr \<subseteq> set (snd (call_writeFile P f b tr))"
  "set tr \<subseteq> set (snd (call_fetchFile P s tr))"
  by (auto simp add: call_defs Let_def)

lemma muxAudio_mono: "set tr \<subseteq> set (snd (muxAudio P a tr))"
proof (cases a)
  case None
  then show ?thesis by (simp add: muxAudio_None)
next
  case (Some f)
  let ?F = "call_fetchFile P (FromFile f) tr"
  let ?W = "call_writeFile P ''audio_in'' (the (fst ?F)) (snd ?F)"
  let ?E = "call_exec P (muxArgs ''final.mp4'') (snd ?W)"
  have "set tr \<subseteq> set (snd ?F)" "set (snd ?F) \<subseteq> set (snd ?W)" "set (snd ?W) \<subseteq> set (snd ?E)"
    by (rule call_mono)+
  then have "set tr \<subseteq> set (snd ?F) \<and> set tr \<subseteq> set (snd ?W) \<and> set tr \<subseteq> set (snd ?E)"
    by blast
  with Some show ?thesis
    by (simp add: muxAudio_Some Let_def)
qed

lemma tryBlock_concat_list:
  assumes "reads (snd (snd (tryBlock P st))) \<noteq> []"
  shows "(WriteFile ''concat_list.txt''
            (encode (listTxt (map partName [0..<length (items st)]))), True)
           \<in> set (snd (snd (tryBlock P st)))"
proof -
  define E where "E = ensureFFmpeg P (ffmpegRef st) []"
  define F where "F = writeFont P (fontUrl st) (resetFS P (snd E))"
  define R where "R = renderLoop P (resolution_w st) (resolution_h st) (fps st) (fst F) 0
    (items st) [] (snd F)"
  define W where "W = call_writeFile P ''concat_list.txt'' (encode (listTxt (the (fst R)))) (snd R)"
  define C where "C = call_exec P concatArgs (snd W)"
  define M where "M = muxAudio P (audioFile st) (snd C)"
  define D where "D = call_readFile P (the (fst M)) (snd M)"
  have tb: "tryBlock P st =
      (if \<not> fst E then (None, False, snd E)
       else if fst R = None then (None, True, snd R)
       else if \<not> fst W then (None, True, snd W)
       else if \<not> fst C then (None, True, snd C)
       else if fst M = None then (None, True, snd M)
       else (fst D, True, snd D))"
    by (simp add: tryBlock_unfold Let_def E_def F_def R_def W_def C_def M_def D_def)
  have rE: "reads (snd E) = []"
    by (simp add: E_def ensureFFmpeg_reads reads_Nil)
  have rF: "reads (snd F) = []"
    by (simp add: F_def writeFont_reads resetFS_reads rE)
  have rR: "reads (snd R) = []"
    by (simp add: R_def renderLoop_reads rF)
  have rW: "reads (snd W) = []"
    by (simp add: W_def call_simps rR)
  have rC: "reads (snd C) = []"
    by (simp add: C_def call_simps rW)
  have rM: "reads (snd M) = []"
    by (simp add: M_def muxAudio_reads rC)
  have path: "fst E \<and> fst R \<noteq> None \<and> fst W \<and> fst C \<and> fst M \<noteq> None"
    using assms unfolding tb by (auto simp add: rE rR rW rC rM split: if_splits)
  then have tr: "snd (snd (tryBlock P st)) = snd D"
    by (auto simp add: tb)
  from path obtain pn where pn: "fst R = Some pn"
    by auto
  from renderLoop_partNames[OF pn[unfolded R_def]]
  have names: "the (fst R) = map partName [0..<length (items st)]"
    by (simp add: pn)
  have "snd W = snd R @ [(WriteFile ''concat_list.txt'' (encode (listTxt (the (fst R)))), fst W)]"
    by (simp add: W_def call_writeFile_def Let_def)
  with path names
  have "(WriteFile ''concat_list.txt'' (encode (listTxt (map partName [0..<length (items st)]))), True)
      \<in> set (snd W)"
    by simp
  moreover have "set (snd W) \<subseteq> set (snd C)"
    unfolding C_def by (rule call_mono)
  moreover have "set (snd C) \<subseteq> set (snd M)"
    unfolding M_def by (rule muxAudio_mono)
  moreover have "set (snd M) \<subseteq> set (snd D)"
    unfolding D_def by (rule call_mono)
  ultimately show ?thesis
    unfolding tr by blast
qed

section \<open>The run as a whole\<close>

lemma createVideo_result:
  assumes "createVideo P st = (st', tr)"
  shows "tr = snd (snd (tryBlock P st))"
    and "message st' = (if fst (tryBlock P st) = None then errorMessage else doneMessage)"
    and "videoUrl st' = map_option ObjectURL (fst (tryBlock P st))"
    and "\<not> isBusy st'"
  using createVideo_trace[of P st] createVideo_message[of P st] createVideo_videoUrl[of P st]
    createVideo_isBusy[of P st] assms
  by simp_all

lemma render_args_explicit:
  "''-y'' # args P w h r fp i it =
     [''-y'', ''-loop'', ''1'',
      ''-t'', String_number P (Math_max (Finite (1 / 5)) (durationSec it)),
      ''-i'', inputName i it,
      ''-r'', String_nat r,
      ''-vf'', vf w h (caption it) fp,
      ''-an'', ''-c:v'', ''libx264'', ''-pix_fmt'', ''yuv420p'', ''-movflags'', ''+faststart'',
      partName i]"
  by (simp add: args_def)

text \<open>
  Claim C5. In a run that reaches the final read, the commands executed are one render per
  item, in the order of the items, then the concatenation and, with an audio file, the mux.
  The render of item \<open>i\<close> repeats the still image (\<^verbatim>\<open>-loop 1\<close>) for
  \<^verbatim>\<open>String(Math.max(0.2, durationSec))\<close> seconds (\<^verbatim>\<open>-t\<close>), at the frame rate of the
  state (\<^verbatim>\<open>-r\<close>) and without audio (\<^verbatim>\<open>-an\<close>).
\<close>
theorem render_once_per_item:
  assumes "createVideo P st = (st', tr)" and "reads tr \<noteq> []"
  shows "\<exists>fontPath \<in> {[], ''font.ttf''}.
           execs tr =
             map (\<lambda>i. [''-y'', ''-loop'', ''1'',
                        ''-t'', String_number P (Math_max (Finite (1 / 5)) (durationSec (items st ! i))),
                        ''-i'', inputName i (items st ! i),
                        ''-r'', String_nat (fps st),
                        ''-vf'', vf (resolution_w st) (resolution_h st) (caption (items st ! i)) fontPath,
                        ''-an'', ''-c:v'', ''libx264'', ''-pix_fmt'', ''yuv420p'',
                        ''-movflags'', ''+faststart'', partName i])
               [0..<length (items st)]
             @ concatArgs # (if audioFile st = None then [] else [muxArgs ''final.mp4''])"
  using tryBlock_reached[of P st] assms createVideo_result(1)[OF assms(1)]
  by (simp add: render_args_explicit)

lemma length_render: "length (''-y'' # args P w h r fp i it) = 19"
  by (simp add: args_def)

lemma length_muxArgs: "length (muxArgs f) = 17"
  by (simp add: muxArgs_def)

lemma mux_not_render: "muxArgs f \<noteq> ''-y'' # args P w h r fp i it"
  using length_render[of P w h r fp i it] length_muxArgs[of f] by auto

text \<open>
  Claim C8. Without an audio file no run executes the mux command, and no run reads a file
  other than \<^verbatim>\<open>output_video.mp4\<close>. A run that reaches the final read reads that file once
  and makes the video URL from what the read returns (\<open>butlast tr\<close> is the calls made before
  the read, which is the last call). Before that it has written to \<^verbatim>\<open>concat_list.txt\<close> one
  line \<^verbatim>\<open>file 'part_i.mp4'\<close> per item, in order, and the engine has executed exactly one
  render per item, whose output is \<^verbatim>\<open>part_i.mp4\<close>, and then the concatenation of
  \<^verbatim>\<open>concat_list.txt\<close> into \<^verbatim>\<open>output_video.mp4\<close> by copy: one command more than there
  are items.
\<close>
theorem no_audio_concat_is_final:
  assumes "createVideo P st = (st', tr)" and "audioFile st = None"
  shows "[''-y'', ''-i'', ''output_video.mp4'', ''-i'', ''audio_in'', ''-shortest'',
          ''-map'', ''0:v:0'', ''-map'', ''1:a:0'', ''-c:v'', ''copy'', ''-c:a'', ''aac'',
          ''-b:a'', ''192k'', ''final.mp4''] \<notin> set (execs tr) \<and>
         set (reads tr) \<subseteq> {''output_video.mp4''} \<and>
         (reads tr \<noteq> [] \<longrightarrow>
            reads tr = [''output_video.mp4''] \<and>
            videoUrl st' = map_option ObjectURL (readFile P (butlast tr) ''output_video.mp4'') \<and>
            (WriteFile ''concat_list.txt''
               (encode (join [CHR 0x0A]
                  (map (\<lambda>i. ''file '' @ [quote] @ ''part_'' @ String_nat i @ ''.mp4'' @ [quote])
                     [0..<length (items st)]))), True) \<in> set tr \<and>
            (\<exists>fontPath \<in> {[], ''font.ttf''}.
               execs tr =
                 map (\<lambda>i. [''-y'', ''-loop'', ''1'',
                            ''-t'', String_number P (Math_max (Finite (1 / 5)) (durationSec (items st ! i))),
                            ''-i'', inputName i (items st ! i),
                            ''-r'', String_nat (fps st),
                            ''-vf'', vf (resolution_w st) (resolution_h st) (caption (items st ! i)) fontPath,
                            ''-an'', ''-c:v'', ''libx264'', ''-pix_fmt'', ''yuv420p'',
                            ''-movflags'', ''+faststart'', ''part_'' @ String_nat i @ ''.mp4''])
                   [0..<length (items st)]
                 @ [[''-y'', ''-f'', ''concat'', ''-safe'', ''0'', ''-i'', ''concat_list.txt'',
                     ''-c'', ''copy'', ''output_video.mp4'']]) \<and>
            length (execs tr) = length (items st) + 1)"
proof -
  have tr: "tr = snd (snd (tryBlock P st))"
    by (rule createVideo_result(1)[OF assms(1)])
  have never: "muxArgs ''final.mp4'' \<notin> set (execs tr) \<and> set (reads tr) \<subseteq> {''output_video.mp4''}"
    using tryBlock_outcome[of P st] assms(2) createVideo_result[OF assms(1)]
    by (auto simp add: mux_not_render concatArgs_not_mux[symmetric])
  have reached: "reads tr = [''output_video.mp4''] \<and>
      videoUrl st' = map_option ObjectURL (readFile P (butlast tr) ''output_video.mp4'') \<and>
      length (execs tr) = length (items st) + 1"
    if "reads tr \<noteq> []"
    using that tryBlock_outcome[of P st] assms(2) createVideo_result[OF assms(1)]
    by auto
  have list: "(WriteFile ''concat_list.txt''
      (encode (listTxt (map partName [0..<length (items st)]))), True) \<in> set tr"
    if "reads tr \<noteq> []"
    using that tryBlock_concat_list[of P st] by (simp add: tr)
  have cmds: "\<exists>fontPath \<in> {[], ''font.ttf''}.
      execs tr =
        map (\<lambda>i. ''-y'' # args P (resolution_w st) (resolution_h st) (fps st) fontPath i
               (items st ! i)) [0..<length (items st)] @ [concatArgs]"
    if "reads tr \<noteq> []"
    using that tryBlock_reached[of P st] assms(2) by (simp add: tr)
  have lines: "listTxt (map partName [0..<n]) =
      join [CHR 0x0A]
        (map (\<lambda>i. ''file '' @ [quote] @ ''part_'' @ String_nat i @ ''.mp4'' @ [quote]) [0..<n])" for n
    by (simp add: listTxt_def partName_def comp_def)
  from never reached list cmds show ?thesis
    by (simp add: lines muxArgs_def concatArgs_def args_def partName_def)
qed

text \<open>
  The \<^verbatim>\<open>catch\<close> around the mux command, for every engine: if the promise of the mux
  command rejects, the one file read is \<^verbatim>\<open>output_video.mp4\<close>, the video URL is made from
  the data read and the success message is set whenever the read returns, and the run is no
  longer busy.
\<close>
theorem mux_failure_falls_back:
  assumes "createVideo P st = (st', tr)"
    and "Exec (muxArgs ''final.mp4'') \<in> set (failures tr)"
  shows "reads tr = [''output_video.mp4''] \<and>
         videoUrl st' = map_option ObjectURL (readFile P (butlast tr) ''output_video.mp4'') \<and>
         message st' =
           (if readFile P (butlast tr) ''output_video.mp4'' = None then errorMessage
            else doneMessage) \<and>
         \<not> isBusy st'"
  using tryBlock_outcome[of P st] assms(2) createVideo_result[OF assms(1)]
  by auto

text \<open>
  A mux command whose promise resolves, whatever its exit code, takes the other branch: with
  an audio file, a run that reaches the final read without a rejected mux reads
  \<^verbatim>\<open>final.mp4\<close>.
\<close>
lemma resolved_mux_reads_final:
  assumes "createVideo P st = (st', tr)" and "audioFile st \<noteq> None" and "reads tr \<noteq> []"
    and "Exec (muxArgs ''final.mp4'') \<notin> set (failures tr)"
  shows "reads tr = [''final.mp4'']"
  using tryBlock_outcome[of P st] assms(2,3,4) createVideo_result[OF assms(1)]
  by auto

lemma vf_no_font: "vf w h c [] = scalePad w h"
  by (simp add: vf_def hasCaption_def)

text \<open>
  Claim C7. If the fetch of the font throws, every command executed is the concatenation,
  the mux, or the render of an item with an empty font path, whose filter expression is the
  scale-and-pad expression alone, whatever the caption. If no other call throws, the run
  renders every item, concatenates, and ends with the success message and a video URL.
\<close>
theorem font_failure_no_overlay:
  assumes "createVideo P st = (st', tr)"
    and "FetchFile (Url (fontUrl st)) \<in> set (failures tr)"
  shows "(\<forall>a \<in> set (execs tr).
            a = concatArgs \<or> a = muxArgs ''final.mp4'' \<or>
            (\<exists>i < length (items st).
               a = ''-y'' # args P (resolution_w st) (resolution_h st) (fps st) [] i (items st ! i) \<and>
               a ! 10 = scalePad (resolution_w st) (resolution_h st))) \<and>
         (set (failures tr) \<subseteq> {FetchFile (Url (fontUrl st))} \<longrightarrow>
            message st' = doneMessage \<and> videoUrl st' \<noteq> None \<and>
            execs tr =
              map (\<lambda>i. ''-y'' # args P (resolution_w st) (resolution_h st) (fps st) [] i (items st ! i))
                [0..<length (items st)]
              @ concatArgs # (if audioFile st = None then [] else [muxArgs ''final.mp4'']))"
proof -
  have ov: "args P (resolution_w st) (resolution_h st) (fps st) [] k (items st ! k) ! 9 =
      scalePad (resolution_w st) (resolution_h st)" for k
    by (simp add: args_def vf_no_font)
  have ff: "set (failures tr) \<subseteq> {FetchFile (Url (fontUrl st))} \<Longrightarrow> \<forall>c \<in> set (failures tr). font_fetch c"
    by auto
  show ?thesis
    using tryBlock_outcome[of P st] assms(2) createVideo_result[OF assms(1)] ov ff
    by (auto simp add: nth_Cons'; blast)
qed

text \<open>
  Whatever the calls do, the run ends not busy and with the progress at zero (the
  \<^verbatim>\<open>finally\<close> block), the items are untouched, the message is one of the two messages,
  and it is the success message exactly when a video URL has been set.
\<close>
theorem createVideo_finally:
  "\<not> isBusy (fst (createVideo P st)) \<and> progress (fst (createVideo P st)) = 0 \<and>
   items (fst (createVideo P st)) = items st \<and>
   message (fst (createVideo P st)) \<in> {doneMessage, errorMessage} \<and>
   (message (fst (createVideo P st)) = doneMessage) = (videoUrl (fst (createVideo P st)) \<noteq> None)"
  by (simp add: createVideo_def Let_def case_prod_beta doneMessage_def errorMessage_def
      split: option.split)

section \<open>The example runs\<close>

lemma call_fst:
  "fst (call_toBlobURL P u tr) = toBlobURL P tr u"
  "fst (call_load P tr) = load P tr"
  "fst (call_listDir P d tr) = listDir P tr d"
  "fst (call_deleteFile P f tr) = deleteFile P tr f"
  "fst (call_fetchFile P s tr) = fetchFile P tr s"
  "fst (call_writeFile P f b tr) = writeFile P tr f b"
  "fst (call_exec P a tr) = (exec P tr a \<noteq> None)"
  by (simp_all add: call_defs Let_def)

lemmas run_simps = tryBlock_unfold Let_def ensureFFmpeg_def case_prod_beta resetFS_unfold
  writeFont_unfold renderLoop_Cons muxAudio_None muxAudio_Some call_simps call_fst trace_simps

lemma surj_run: "createVideo P st = (fst (createVideo P st), snd (createVideo P st))"
  by simp

lemma ok_reads: "reads (snd (createVideo engine_ok st0)) = [''output_video.mp4'']"
  by (simp add: createVideo_trace run_simps st0_def engine_ok_def del: renderLoop.simps(2))

lemma ok_execs_len: "length (execs (snd (createVideo engine_ok st0))) = 3"
  by (simp add: createVideo_trace run_simps st0_def engine_ok_def del: renderLoop.simps(2))

lemma ok_failures: "failures (snd (createVideo engine_ok st0)) = []"
  by (simp add: createVideo_trace run_simps st0_def engine_ok_def del: renderLoop.simps(2))

lemma no_font_failures:
  "failures (snd (createVideo engine_no_font st0)) = [FetchFile (Url (fontUrl st0))]"
  by (simp add: createVideo_trace run_simps st0_def engine_no_font_def engine_ok_def
      del: renderLoop.simps(2))

lemma no_aac_failures:
  "failures (snd (createVideo engine_no_aac st_audio)) = [Exec (muxArgs ''final.mp4'')]"
  by (simp add: createVideo_trace run_simps st_audio_def st0_def engine_no_aac_def engine_ok_def
      mux_not_render[symmetric] concatArgs_not_mux del: renderLoop.simps(2))

lemma String_tenths_3: "String_tenths (Finite 3) = ''3''"
  by (simp add: String_tenths_def String_int_def String_nat.simps digit_char_def)

lemma String_tenths_fifth: "String_tenths (Finite (1 / 5)) = ''0.2''"
proof -
  have "\<lfloor>1 / 5 :: rat\<rfloor> = 0"
    by (simp add: floor_eq_iff)
  then show ?thesis
    by (simp add: String_tenths_def String_int_def String_nat.simps digit_char_def)
qed

lemma ok_first_render:
  "take 9 (execs (snd (createVideo engine_ok st0)) ! 0) =
     [''-y'', ''-loop'', ''1'', ''-t'', ''3'', ''-i'', ''input_0.png'', ''-r'', ''30'']"
  by (simp add: createVideo_trace run_simps st0_def engine_ok_def args_def item0_def
      inputName_def extOf_def lastIndexOf_def Math_max_def String_tenths_3
      String_nat.simps digit_char_def del: renderLoop.simps(2))

lemma ok_second_render:
  "take 9 (execs (snd (createVideo engine_ok st0)) ! 1) =
     [''-y'', ''-loop'', ''1'', ''-t'', ''0.2'', ''-i'', ''input_1'', ''-r'', ''30'']"
  by (simp add: createVideo_trace run_simps st0_def engine_ok_def args_def item1_def
      inputName_def extOf_def lastIndexOf_def Math_max_def String_tenths_fifth
      String_nat.simps digit_char_def del: renderLoop.simps(2))

theorem render_once_per_item_witness:
  "reads (snd (createVideo engine_ok st0)) \<noteq> [] \<and>
   length (items st0) = 2 \<and> audioFile st0 = None \<and>
   length (execs (snd (createVideo engine_ok st0))) = 3 \<and>
   take 9 (execs (snd (createVideo engine_ok st0)) ! 0) =
     [''-y'', ''-loop'', ''1'', ''-t'', ''3'', ''-i'', ''input_0.png'', ''-r'', ''30''] \<and>
   take 9 (execs (snd (createVideo engine_ok st0)) ! 1) =
     [''-y'', ''-loop'', ''1'', ''-t'', ''0.2'', ''-i'', ''input_1'', ''-r'', ''30''] \<and>
   execs (snd (createVideo engine_ok st0)) ! 0 ! 11 = ''-an'' \<and>
   execs (snd (createVideo engine_ok st0)) ! 2 = concatArgs"
proof -
  have r: "reads (snd (createVideo engine_ok st0)) \<noteq> []"
    by (simp add: ok_reads)
  have i: "length (items st0) = 2" "audioFile st0 = None"
    by (simp_all add: st0_def)
  from render_once_per_item[OF surj_run r] i ok_first_render ok_second_render
  show ?thesis
    by (auto simp add: nth_append upt_rec[of 0] upt_rec[of 1] r)
qed

theorem no_audio_concat_is_final_witness:
  "audioFile st0 = None \<and>
   reads (snd (createVideo engine_ok st0)) = [''output_video.mp4''] \<and>
   videoUrl (fst (createVideo engine_ok st0)) = Some (ObjectURL [7]) \<and>
   length (items st0) = 2 \<and>
   length (execs (snd (createVideo engine_ok st0))) = 3 \<and>
   last (execs (snd (createVideo engine_ok st0)) ! 0) = ''part_0.mp4'' \<and>
   last (execs (snd (createVideo engine_ok st0)) ! 1) = ''part_1.mp4'' \<and>
   (WriteFile ''concat_list.txt''
      (encode (''file '' @ [quote] @ ''part_0.mp4'' @ [quote] @ [CHR 0x0A]
                 @ ''file '' @ [quote] @ ''part_1.mp4'' @ [quote])), True)
     \<in> set (snd (createVideo engine_ok st0)) \<and>
   execs (snd (createVideo engine_ok st0)) ! 2 =
     [''-y'', ''-f'', ''concat'', ''-safe'', ''0'', ''-i'', ''concat_list.txt'',
      ''-c'', ''copy'', ''output_video.mp4'']"
proof -
  have r: "reads (snd (createVideo engine_ok st0)) \<noteq> []"
    by (simp add: ok_reads)
  have a: "audioFile st0 = None" and n: "length (items st0) = 2"
    by (simp_all add: st0_def)
  have rd: "readFile engine_ok h f = Some [7]" for h f
    by (simp add: engine_ok_def)
  have d: "String_nat 0 = ''0''" "String_nat (Suc 0) = ''1''"
    by (simp_all add: String_nat.simps digit_char_def)
  have u: "[0..<2] = [0, Suc 0]"
    by (simp add: numeral_2_eq_2)
  from no_audio_concat_is_final[OF surj_run[of engine_ok st0] a] r
  obtain fontPath where
    f1: "reads (snd (createVideo engine_ok st0)) = [''output_video.mp4'']"
    and f2: "videoUrl (fst (createVideo engine_ok st0)) =
      map_option ObjectURL
        (readFile engine_ok (butlast (snd (createVideo engine_ok st0))) ''output_video.mp4'')"
    and f3: "(WriteFile ''concat_list.txt''
        (encode (join [CHR 0x0A]
           (map (\<lambda>i. ''file '' @ [quote] @ ''part_'' @ String_nat i @ ''.mp4'' @ [quote])
              [0..<length (items st0)]))), True) \<in> set (snd (createVideo engine_ok st0))"
    and f4: "execs (snd (createVideo engine_ok st0)) =
        map (\<lambda>i. [''-y'', ''-loop'', ''1'',
                   ''-t'', String_number engine_ok (Math_max (Finite (1 / 5)) (durationSec (items st0 ! i))),
                   ''-i'', inputName i (items st0 ! i),
                   ''-r'', String_nat (fps st0),
                   ''-vf'', vf (resolution_w st0) (resolution_h st0) (caption (items st0 ! i)) fontPath,
                   ''-an'', ''-c:v'', ''libx264'', ''-pix_fmt'', ''yuv420p'',
                   ''-movflags'', ''+faststart'', ''part_'' @ String_nat i @ ''.mp4''])
          [0..<length (items st0)]
        @ [[''-y'', ''-f'', ''concat'', ''-safe'', ''0'', ''-i'', ''concat_list.txt'',
            ''-c'', ''copy'', ''output_video.mp4'']]"
    by blast
  from f3 have f3': "(WriteFile ''concat_list.txt''
      (encode (''file '' @ [quote] @ ''part_0.mp4'' @ [quote] @ [CHR 0x0A]
                 @ ''file '' @ [quote] @ ''part_1.mp4'' @ [quote])), True)
     \<in> set (snd (createVideo engine_ok st0))"
    by (simp add: n u d)
  from f4 have f4': "execs (snd (createVideo engine_ok st0)) ! 2 =
       [''-y'', ''-f'', ''concat'', ''-safe'', ''0'', ''-i'', ''concat_list.txt'',
        ''-c'', ''copy'', ''output_video.mp4'']"
    and f5: "last (execs (snd (createVideo engine_ok st0)) ! 0) = ''part_0.mp4''"
    and f6: "last (execs (snd (createVideo engine_ok st0)) ! 1) = ''part_1.mp4''"
    and f7: "length (execs (snd (createVideo engine_ok st0))) = 3"
    by (simp_all add: n u d)
  from f1 f2 f3' f4' f5 f6 f7 a n rd show ?thesis
    by simp
qed

theorem mux_failure_falls_back_witness:
  "Exec (muxArgs ''final.mp4'') \<in> set (failures (snd (createVideo engine_no_aac st_audio))) \<and>
   audioFile st_audio \<noteq> None \<and>
   reads (snd (createVideo engine_no_aac st_audio)) = [''output_video.mp4''] \<and>
   videoUrl (fst (createVideo engine_no_aac st_audio)) = Some (ObjectURL [7]) \<and>
   message (fst (createVideo engine_no_aac st_audio)) = doneMessage \<and>
   \<not> isBusy (fst (createVideo engine_no_aac st_audio))"
proof -
  have m: "Exec (muxArgs ''final.mp4'') \<in> set (failures (snd (createVideo engine_no_aac st_audio)))"
    by (simp add: no_aac_failures)
  have a: "audioFile st_audio \<noteq> None"
    by (simp add: st_audio_def)
  have rd: "readFile engine_no_aac h f = Some [7]" for h f
    by (simp add: engine_no_aac_def engine_ok_def)
  from mux_failure_falls_back[OF surj_run m] m a rd show ?thesis
    by simp
qed

theorem font_failure_no_overlay_witness:
  "FetchFile (Url (fontUrl st0)) \<in> set (failures (snd (createVideo engine_no_font st0))) \<and>
   failures (snd (createVideo engine_no_font st0)) = [FetchFile (Url (fontUrl st0))] \<and>
   trim (caption (items st0 ! 0)) \<noteq> [] \<and>
   execs (snd (createVideo engine_no_font st0)) ! 0 ! 10 = scalePad 1280 720 \<and>
   length (execs (snd (createVideo engine_no_font st0))) = 3 \<and>
   message (fst (createVideo engine_no_font st0)) = doneMessage \<and>
   videoUrl (fst (createVideo engine_no_font st0)) \<noteq> None"
proof -
  have f: "FetchFile (Url (fontUrl st0)) \<in> set (failures (snd (createVideo engine_no_font st0)))"
    by (simp add: no_font_failures)
  have only: "set (failures (snd (createVideo engine_no_font st0))) \<subseteq> {FetchFile (Url (fontUrl st0))}"
    by (simp add: no_font_failures)
  have c: "trim (caption (items st0 ! 0)) \<noteq> []"
    by (simp add: st0_def item0_def trim_Hi)
  have s: "length (items st0) = 2" "audioFile st0 = None" "resolution_w st0 = 1280"
    "resolution_h st0 = 720"
    by (simp_all add: st0_def)
  from font_failure_no_overlay[OF surj_run f] only
  have "message (fst (createVideo engine_no_font st0)) = doneMessage \<and>
      videoUrl (fst (createVideo engine_no_font st0)) \<noteq> None \<and>
      execs (snd (createVideo engine_no_font st0)) =
        map (\<lambda>i. ''-y'' # args engine_no_font (resolution_w st0) (resolution_h st0) (fps st0) [] i
               (items st0 ! i)) [0..<length (items st0)]
        @ concatArgs # (if audioFile st0 = None then [] else [muxArgs ''final.mp4''])"
    by blast
  with f c s no_font_failures show ?thesis
    by (simp add: upt_rec[of 0] upt_rec[of 1] args_def vf_no_font)
qed

theorem empty_items_no_call_witness:
  "items st_empty = [] \<and> onClick engine_ok st_empty = (st_empty, [])"
proof -
  have e: "items st_empty = []"
    by (simp add: st_empty_def)
  from empty_items_no_call[OF e, of engine_ok] e show ?thesis
    by simp
qed

lemma exit_1_run:
  "execs (snd (createVideo engine_aac_exit_1 st_audio)) ! 2 = concatArgs"
  "execs (snd (createVideo engine_aac_exit_1 st_audio)) ! 3 = muxArgs ''final.mp4''"
  "failures (snd (createVideo engine_aac_exit_1 st_audio)) = [ReadFile ''final.mp4'']"
  "reads (snd (createVideo engine_aac_exit_1 st_audio)) = [''final.mp4'']"
  "fst (tryBlock engine_aac_exit_1 st_audio) = None"
  by (simp_all add: createVideo_trace run_simps st_audio_def st0_def engine_aac_exit_1_def
      engine_ok_def mux_not_render[symmetric] concatArgs_not_mux del: renderLoop.simps(2))

text \<open>
  Claim C3. When the mux fails, the run is to fall back to \<^verbatim>\<open>output_video.mp4\<close> and end
  as a success. The \<^verbatim>\<open>catch\<close> that falls back runs only when the promise of
  \<^verbatim>\<open>exec\<close> rejects; the exit code the promise resolves with is dropped. On the engine
  where the mux command fails with exit code 1 and leaves no \<^verbatim>\<open>final.mp4\<close>, the run with
  an audio file executes the concatenation and the mux, then reads \<^verbatim>\<open>final.mp4\<close>, never
  \<^verbatim>\<open>output_video.mp4\<close>; that read throws and the run ends with the error message and no
  video URL.
\<close>
theorem mux_exit_code_not_caught:
  "audioFile st_audio \<noteq> None \<and>
   exec engine_aac_exit_1 h (muxArgs ''final.mp4'') = Some 1 \<and>
   execs (snd (createVideo engine_aac_exit_1 st_audio)) ! 2 =
     [''-y'', ''-f'', ''concat'', ''-safe'', ''0'', ''-i'', ''concat_list.txt'',
      ''-c'', ''copy'', ''output_video.mp4''] \<and>
   execs (snd (createVideo engine_aac_exit_1 st_audio)) ! 3 =
     [''-y'', ''-i'', ''output_video.mp4'', ''-i'', ''audio_in'', ''-shortest'',
      ''-map'', ''0:v:0'', ''-map'', ''1:a:0'', ''-c:v'', ''copy'', ''-c:a'', ''aac'',
      ''-b:a'', ''192k'', ''final.mp4''] \<and>
   Exec (muxArgs ''final.mp4'') \<notin> set (failures (snd (createVideo engine_aac_exit_1 st_audio))) \<and>
   reads (snd (createVideo engine_aac_exit_1 st_audio)) = [''final.mp4''] \<and>
   failures (snd (createVideo engine_aac_exit_1 st_audio)) = [ReadFile ''final.mp4''] \<and>
   message (fst (createVideo engine_aac_exit_1 st_audio)) = errorMessage \<and>
   videoUrl (fst (createVideo engine_aac_exit_1 st_audio)) = None"
  by (simp add: exit_1_run createVideo_message createVideo_videoUrl)
     (simp add: st_audio_def engine_aac_exit_1_def engine_ok_def muxArgs_def concatArgs_def)

end
